theory Spec2Isabelle
  imports Complex_Main "HOL-Library.Multiset"
begin

section \<open>JavaScript values used by index.js\<close>

text \<open>
  Exceptions are values. \<open>ReferenceError\<close> is what reading an undeclared identifier
  raises; \<open>Error\<close> carries the message of a \<open>throw new Error(...)\<close> of the source;
  \<open>TypeError\<close> is raised by a property read on \<open>undefined\<close>.
\<close>

datatype js_error = ReferenceError string | Error string | TypeError string

text \<open>
  An \<open>async\<close> function either returns, throws, or awaits a promise that nobody ever
  resolves; the last case is a value of its own, so that "the call returns" is a statement
  that can be proved or refuted.
\<close>

datatype 'a outcome = Returned 'a | Threw js_error | NeverSettles

text \<open>
  A JavaScript number is an IEEE 754 double: a finite value, one of the two infinities,
  or NaN. A finite value is kept as the rational it denotes. The two zeros are one value
  here: they compare equal, print alike in JSON, and the program never divides by a
  computed zero of negative sign.
\<close>

datatype jsnum = Finite rat | PosInfinity | NegInfinity | NaN

text \<open>
  Rounding of an exact result to a double, to nearest with ties to even: 53 significant
  bits, exponents down to \<open>-1022\<close> (below that the spacing stays \<open>2^-1074\<close>, and a
  result may round to zero), and a result that rounds to \<open>2^1024\<close> or more, one whose
  integer part has more than 1024 bits, is infinite. \<open>bitLength n\<close> is the number of
  bits of a positive \<open>n\<close>.
\<close>

function bitLength :: "int \<Rightarrow> int" where
  "bitLength n = (if n \<le> 0 then 0 else 1 + bitLength (n div 2))"
  by pat_completeness auto
termination
  by (relation "measure nat") auto

declare bitLength.simps [simp del]

definition pow2 :: "int \<Rightarrow> rat" where
  "pow2 e = (if 0 \<le> e then 2 ^ nat e else 1 / 2 ^ nat (- e))"

text \<open>For a positive \<open>q\<close>, the exponent \<open>e\<close> with \<open>2^e \<le> q < 2^(e+1)\<close>.\<close>

definition binaryExponent :: "rat \<Rightarrow> int" where
  "binaryExponent q =
     (if 1 \<le> q then bitLength \<lfloor>q\<rfloor> - 1
      else (let k = bitLength \<lfloor>1 / q\<rfloor> - 1
            in if q = pow2 (- k) then - k else - k - 1))"

definition roundHalfEven :: "rat \<Rightarrow> int" where
  "roundHalfEven x =
     (let f = \<lfloor>x\<rfloor>; r = x - of_int f
      in if r < 1 / 2 then f else if 1 / 2 < r then f + 1 else if even f then f else f + 1)"

definition roundPositive :: "rat \<Rightarrow> jsnum" where
  "roundPositive q =
     (let e = max (binaryExponent q) (- 1022);
          quantum = pow2 (e - 52);
          v = of_int (roundHalfEven (q / quantum)) * quantum
      in if 1024 < bitLength \<lfloor>v\<rfloor> then PosInfinity else Finite v)"

fun js_neg :: "jsnum \<Rightarrow> jsnum" where
  "js_neg (Finite a) = Finite (- a)"
| "js_neg PosInfinity = NegInfinity"
| "js_neg NegInfinity = PosInfinity"
| "js_neg NaN = NaN"

definition roundDouble :: "rat \<Rightarrow> jsnum" where
  "roundDouble q =
     (if q = 0 then Finite 0
      else if 0 < q then roundPositive q
      else js_neg (roundPositive (- q)))"

text \<open>The operators \<open>*\<close> and \<open>/\<close> on numbers: the exact result, rounded.\<close>

fun js_mul :: "jsnum \<Rightarrow> jsnum \<Rightarrow> jsnum" where
  "js_mul (Finite a) (Finite b) = roundDouble (a * b)"
| "js_mul NaN _ = NaN"
| "js_mul _ NaN = NaN"
| "js_mul (Finite a) PosInfinity = (if a = 0 then NaN else if 0 < a then PosInfinity else NegInfinity)"
| "js_mul (Finite a) NegInfinity = (if a = 0 then NaN else if 0 < a then NegInfinity else PosInfinity)"
| "js_mul PosInfinity (Finite b) = (if b = 0 then NaN else if 0 < b then PosInfinity else NegInfinity)"
| "js_mul NegInfinity (Finite b) = (if b = 0 then NaN else if 0 < b then NegInfinity else PosInfinity)"
| "js_mul PosInfinity PosInfinity = PosInfinity"
| "js_mul PosInfinity NegInfinity = NegInfinity"
| "js_mul NegInfinity PosInfinity = NegInfinity"
| "js_mul NegInfinity NegInfinity = PosInfinity"

fun js_div :: "jsnum \<Rightarrow> jsnum \<Rightarrow> jsnum" where
  "js_div (Finite a) (Finite b) =
     (if b = 0 then (if a = 0 then NaN else if 0 < a then PosInfinity else NegInfinity)
      else roundDouble (a / b))"
| "js_div NaN _ = NaN"
| "js_div _ NaN = NaN"
| "js_div (Finite a) _ = Finite 0"
| "js_div PosInfinity (Finite b) = (if 0 \<le> b then PosInfinity else NegInfinity)"
| "js_div NegInfinity (Finite b) = (if 0 \<le> b then NegInfinity else PosInfinity)"
| "js_div _ _ = NaN"

fun isFinite :: "jsnum \<Rightarrow> bool" where
  "isFinite (Finite a) = True"
| "isFinite _ = False"

text \<open>Truthiness of a number: \<open>0\<close> and \<open>NaN\<close> are falsy.\<close>

fun num_truthy :: "jsnum \<Rightarrow> bool" where
  "num_truthy (Finite a) = (a \<noteq> 0)"
| "num_truthy NaN = False"
| "num_truthy _ = True"

text \<open>
  The values that reach the arithmetic of the risk score: a number, a string (web3 hands
  every \<open>uint\<close> result back as a decimal string, which is why the source's own fallback
  for \<open>decimals\<close> is the string \<open>'18'\<close>), or a \<open>BN\<close> instance of bn.js holding a
  non-negative integer. \<open>undefined\<close> is \<open>None\<close> of an option.
\<close>

datatype jsval = JNum jsnum | JStr string | JBN nat

fun truthy :: "jsval \<Rightarrow> bool" where
  "truthy (JNum n) = num_truthy n"
| "truthy (JStr s) = (s \<noteq> [])"
| "truthy (JBN n) = True"

subsection \<open>Decimal strings\<close>

definition digitChar :: "nat \<Rightarrow> char" where
  "digitChar d = ''0123456789'' ! d"

fun toString10 :: "nat \<Rightarrow> string" where
  "toString10 n = (if n < 10 then [digitChar n] else toString10 (n div 10) @ [digitChar (n mod 10)])"

declare toString10.simps [simp del]

definition digitValue :: "char \<Rightarrow> nat option" where
  "digitValue c = map_of (zip ''0123456789'' [0, 1, 2, 3, 4, 5, 6, 7, 8, 9]) c"

text \<open>
  \<open>new BN(s, 10)\<close> for an unsigned decimal string: the digits are folded most significant
  first; a character that is not a digit is refused (bn.js asserts on it).
\<close>

fun parseDigits :: "nat \<Rightarrow> string \<Rightarrow> js_error + nat" where
  "parseDigits acc [] = Inr acc"
| "parseDigits acc (c # cs) =
     (case digitValue c of
        None \<Rightarrow> Inl (Error ''Invalid character'')
      | Some d \<Rightarrow> parseDigits (acc * 10 + d) cs)"

definition new_BN :: "string \<Rightarrow> js_error + nat" where
  "new_BN s = parseDigits 0 s"

text \<open>
  \<open>ToNumber\<close>, as the operators \<open>*\<close> and \<open>/\<close> apply it to their operands: a BN goes
  through its \<open>toString()\<close>, a decimal string is read as the double nearest to the
  integer it spells, the empty string is \<open>0\<close>, any other string met here is \<open>NaN\<close>.
\<close>

fun toNumber :: "jsval \<Rightarrow> jsnum" where
  "toNumber (JNum n) = n"
| "toNumber (JBN n) = roundDouble (of_nat n)"
| "toNumber (JStr s) = (case parseDigits 0 s of Inr n \<Rightarrow> roundDouble (of_nat n) | Inl e \<Rightarrow> NaN)"

subsection \<open>Strings and objects\<close>

definition toLowerChar :: "char \<Rightarrow> char" where
  "toLowerChar c =
     (case map_of (zip ''ABCDEFGHIJKLMNOPQRSTUVWXYZ'' ''abcdefghijklmnopqrstuvwxyz'') c of
        None \<Rightarrow> c | Some l \<Rightarrow> l)"

definition toLowerCase :: "string \<Rightarrow> string" where
  "toLowerCase s = map toLowerChar s"

text \<open>\<open>[a, b].join(".")\<close> and \<open>key.split(".")\<close>.\<close>

definition join_dot :: "string \<Rightarrow> string \<Rightarrow> string" where
  "join_dot a b = a @ ''.'' @ b"

fun split_dot :: "string \<Rightarrow> string list" where
  "split_dot [] = [[]]"
| "split_dot (c # cs) =
     (if c = CHR ''.'' then [] # split_dot cs
      else (case split_dot cs of [] \<Rightarrow> [[c]] | p # ps \<Rightarrow> (c # p) # ps))"

text \<open>
  Array destructuring \<open>const [x, y, z] = arr\<close>: a position past the end of the array
  is \<open>undefined\<close>.
\<close>

fun nth_opt :: "'a list \<Rightarrow> nat \<Rightarrow> 'a option" where
  "nth_opt [] i = None"
| "nth_opt (x # xs) 0 = Some x"
| "nth_opt (x # xs) (Suc i) = nth_opt xs i"

text \<open>
  A plain object used as a dictionary. \<open>Object.keys\<close> lists the string keys in the order
  of their first insertion (no key written by the program is an array index), and an
  assignment to a key that exists keeps its place: an association list with update in place.
\<close>

type_synonym 'v obj = "(string \<times> 'v) list"

fun obj_set :: "string \<Rightarrow> 'v \<Rightarrow> 'v obj \<Rightarrow> 'v obj" where
  "obj_set k v [] = [(k, v)]"
| "obj_set k v ((k', v') # m) = (if k' = k then (k, v) # m else (k', v') # obj_set k v m)"

definition obj_keys :: "'v obj \<Rightarrow> string list" where
  "obj_keys m = map fst m"

definition obj_get :: "'v obj \<Rightarrow> string \<Rightarrow> 'v option" where
  "obj_get m k = map_of m k"

text \<open>\<open>obj[k].field = v\<close> on an entry that exists: the entry is changed where it stands.\<close>

fun obj_modify :: "string \<Rightarrow> ('v \<Rightarrow> 'v) \<Rightarrow> 'v obj \<Rightarrow> 'v obj" where
  "obj_modify k f [] = []"
| "obj_modify k f ((k', v') # m) = (if k' = k then (k', f v') # m else (k', v') # obj_modify k f m)"

section \<open>The comparator and the sort\<close>

text \<open>
  A log entry as web3 returns it from \<open>getPastLogs\<close>. \<open>data\<close> is the unsigned integer
  the hexadecimal payload encodes (\<open>toBN\<close> of it); the three positions are non-negative
  integers small enough for their differences to be exact.
\<close>

record txLog =
  address :: string
  topics :: "string list"
  data :: nat
  blockNumber :: int
  transactionIndex :: int
  logIndex :: int

text \<open>
  \<open>compareNumberKeys(keys)\<close> returns the comparator \<open>(a, b) => ...\<close>; a key is the
  property read \<open>a[key]\<close>. The loop returns the first non-zero difference. After the loop
  the source returns \<open>result\<close>, a \<open>const\<close> of the loop body that is out of scope there:
  the read raises a ReferenceError.
\<close>

fun compareNumberKeys :: "('a \<Rightarrow> int) list \<Rightarrow> 'a \<Rightarrow> 'a \<Rightarrow> js_error + int" where
  "compareNumberKeys [] a b = Inl (ReferenceError ''result is not defined'')"
| "compareNumberKeys (key # keys) a b =
     (let result = key a - key b
      in if result \<noteq> 0 then Inr result else compareNumberKeys keys a b)"

text \<open>
  \<open>Array.prototype.sort\<close> with a comparator: a stable sort in which an exception of the
  comparator ends the sort. It is written as insertion of each element, left to right,
  behind the elements that do not compare greater.
\<close>

fun insertSorted :: "('a \<Rightarrow> 'a \<Rightarrow> js_error + int) \<Rightarrow> 'a \<Rightarrow> 'a list \<Rightarrow> js_error + 'a list" where
  "insertSorted cmp x [] = Inr [x]"
| "insertSorted cmp x (y # ys) =
     (case cmp x y of
        Inl e \<Rightarrow> Inl e
      | Inr v \<Rightarrow>
          if v < 0 then Inr (x # y # ys)
          else (case insertSorted cmp x ys of Inl e \<Rightarrow> Inl e | Inr zs \<Rightarrow> Inr (y # zs)))"

fun sortInto :: "('a \<Rightarrow> 'a \<Rightarrow> js_error + int) \<Rightarrow> 'a list \<Rightarrow> 'a list \<Rightarrow> js_error + 'a list" where
  "sortInto cmp acc [] = Inr acc"
| "sortInto cmp acc (x # xs) =
     (case insertSorted cmp x acc of Inl e \<Rightarrow> Inl e | Inr acc' \<Rightarrow> sortInto cmp acc' xs)"

definition array_sort :: "('a \<Rightarrow> 'a \<Rightarrow> js_error + int) \<Rightarrow> 'a list \<Rightarrow> js_error + 'a list" where
  "array_sort cmp xs = sortInto cmp [] xs"

definition sortLogs :: "txLog list \<Rightarrow> js_error + txLog list" where
  "sortLogs logs = array_sort (compareNumberKeys [blockNumber, transactionIndex, logIndex]) logs"


section \<open>getApprovals: reconstruction of the approval map\<close>

text \<open>
  \<open>unpadAddress\<close>: the argument must start with \<open>0x\<close> and 24 zeros, otherwise
  \<open>Error('Not an address')\<close>; the result is \<open>0x\<close> and the last 40 characters
  (\<open>slice(-40)\<close>: the whole string when it is shorter). An \<open>undefined\<close> argument fails
  the test.
\<close>

definition unpadAddress :: "string option \<Rightarrow> js_error + string" where
  "unpadAddress a =
     (case a of
        None \<Rightarrow> Inl (Error ''Not an address'')
      | Some s \<Rightarrow>
          if take 26 s \<noteq> ''0x000000000000000000000000'' then Inl (Error ''Not an address'')
          else Inr (''0x'' @ drop (length s - 40) s))"

text \<open>\<open>Web3.utils.sha3('Approval(address,address,uint256)')\<close>.\<close>

definition ERC20Topics_APPROVAL :: string where
  "ERC20Topics_APPROVAL = ''0x8c5be1e5ebec7d5bd14f71427d1e84f3dd0314c0f7b2291e5b200ac8c7c3b925''"

text \<open>\<open>w3.utils.padLeft('0x0', 40)\<close>: the zero address.\<close>

definition nullAddress :: string where
  "nullAddress = ''0x'' @ replicate 40 (CHR ''0'')"

text \<open>
  The value stored under a key of \<open>approvalMap\<close>: \<open>{amount}\<close> when the log is read,
  to which the allowance pass adds \<open>allowance\<close> or \<open>allowanceError\<close>. A field that was
  never assigned is \<open>None\<close>.
\<close>

record approvalData =
  amount :: string
  allowance :: "string option"
  allowanceError :: "bool option"

text \<open>
  The body of \<open>approvalLogs.forEach\<close> up to the assignment: the checks in the order of
  the source, then the key and the fresh object \<open>{amount}\<close>.
\<close>

definition approvalEntry :: "string \<Rightarrow> txLog \<Rightarrow> js_error + (string \<times> approvalData)" where
  "approvalEntry addressLower l =
     (let action = nth_opt (topics l) 0;
          ownerPadded = nth_opt (topics l) 1;
          spenderPadded = nth_opt (topics l) 2
      in if action \<noteq> Some ERC20Topics_APPROVAL
         then Inl (Error ''Unexpected non-Approval topic in query result logs'')
         else (case unpadAddress ownerPadded of
                 Inl e \<Rightarrow> Inl e
               | Inr owner \<Rightarrow>
                   (case unpadAddress spenderPadded of
                      Inl e \<Rightarrow> Inl e
                    | Inr spender \<Rightarrow>
                        if owner \<noteq> addressLower
                        then Inl (Error ''Obtained an approval which is not from request owner'')
                        else Inr (join_dot (address l) spender,
                                  \<lparr>amount = toString10 (data l), allowance = None,
                                   allowanceError = None\<rparr>))))"

fun buildApprovalMap :: "string \<Rightarrow> txLog list \<Rightarrow> approvalData obj \<Rightarrow> js_error + approvalData obj" where
  "buildApprovalMap addressLower [] approvalMap = Inr approvalMap"
| "buildApprovalMap addressLower (l # ls) approvalMap =
     (case approvalEntry addressLower l of
        Inl e \<Rightarrow> Inl e
      | Inr (approvalKey, d) \<Rightarrow> buildApprovalMap addressLower ls (obj_set approvalKey d approvalMap))"

text \<open>Lines 148 to 171: sort the logs, then fold them into an empty map.\<close>

definition reconstruct :: "string \<Rightarrow> txLog list \<Rightarrow> js_error + approvalData obj" where
  "reconstruct owner_address pastLogs =
     (case sortLogs pastLogs of
        Inl e \<Rightarrow> Inl e
      | Inr approvalLogs \<Rightarrow> buildApprovalMap (toLowerCase owner_address) approvalLogs [])"

text \<open>The spender a log names (low 20 bytes of its third topic) and the key it is stored under.\<close>

definition spenderOf :: "txLog \<Rightarrow> string" where
  "spenderOf l = (case unpadAddress (nth_opt (topics l) 2) of Inr s \<Rightarrow> s | Inl e \<Rightarrow> [])"

definition approvalKeyOf :: "txLog \<Rightarrow> string" where
  "approvalKeyOf l = join_dot (address l) (spenderOf l)"

section \<open>makeBatchRequestPromise\<close>

text \<open>
  What the chain client hands to a callback: an error (a truthy first argument) or a
  result. The client itself is outside the program; a run of a batch is described by the
  list of callback calls it makes after \<open>batch.execute()\<close>, each naming the position of
  the item whose callback it calls.
\<close>

datatype rpc_error = RpcError string

type_synonym 'r response = "rpc_error + 'r"

datatype promise = Pending | Resolved | Rejected js_error

text \<open>
  The state of one call of \<open>makeBatchRequestPromise\<close>: the requests added to the batch,
  whether \<open>batch.execute()\<close> was called (the one network call), the counter
  \<open>numResponses\<close>, the state of the returned promise, and \<open>store\<close>: the variables of
  the caller that the handler assigns to.
\<close>

record ('q, 's) batchRun =
  requests :: "'q list"
  executed :: bool
  numResponses :: nat
  promise :: promise
  store :: 's

text \<open>\<open>handleItem = handleItem || (() => {})\<close>.\<close>

definition orNoop :: "('i \<Rightarrow> 'r response \<Rightarrow> 's \<Rightarrow> 's) option \<Rightarrow> 'i \<Rightarrow> 'r response \<Rightarrow> 's \<Rightarrow> 's" where
  "orNoop handleItem = (case handleItem of None \<Rightarrow> (\<lambda>item resp s. s) | Some h \<Rightarrow> h)"

text \<open>
  The callback \<open>cb\<close> of one item: count the response, run the handler, and call
  \<open>resolve()\<close> when the count equals \<open>numRequests\<close>. Resolving a promise that is
  already settled changes nothing. Nothing else in the function calls \<open>resolve\<close>.
\<close>

definition cb :: "('i \<Rightarrow> 'r response \<Rightarrow> 's \<Rightarrow> 's) \<Rightarrow> nat \<Rightarrow> 'i \<Rightarrow> 'r response
    \<Rightarrow> ('q, 's) batchRun \<Rightarrow> ('q, 's) batchRun" where
  "cb handleItem numRequests item resp run =
     (let n = numResponses run + 1;
          s = handleItem item resp (store run)
      in run\<lparr>numResponses := n, store := s,
              promise := (if n = numRequests
                          then (case promise run of Pending \<Rightarrow> Resolved | p \<Rightarrow> p)
                          else promise run)\<rparr>)"

text \<open>
  \<open>Array.from(items).forEach\<close>: one request per item, in order; an exception of
  \<open>getRequest\<close> leaves the executor, which rejects the promise before
  \<open>batch.execute()\<close> is reached.
\<close>

fun addRequests :: "('i \<Rightarrow> js_error + 'q) \<Rightarrow> 'i list \<Rightarrow> js_error + 'q list" where
  "addRequests getRequest [] = Inr []"
| "addRequests getRequest (item # items) =
     (case getRequest item of
        Inl e \<Rightarrow> Inl e
      | Inr q \<Rightarrow> (case addRequests getRequest items of Inl e \<Rightarrow> Inl e | Inr qs \<Rightarrow> Inr (q # qs)))"

text \<open>
  The callback calls the client makes. A call names a position; only the items have
  callbacks, so a position past the last item calls nothing.
\<close>

fun deliver :: "('i \<Rightarrow> 'r response \<Rightarrow> 's \<Rightarrow> 's) \<Rightarrow> 'i list \<Rightarrow> (nat \<times> 'r response) list
    \<Rightarrow> ('q, 's) batchRun \<Rightarrow> ('q, 's) batchRun" where
  "deliver handleItem items [] run = run"
| "deliver handleItem items ((i, resp) # ds) run =
     deliver handleItem items ds
       (if i < length items then cb handleItem (length items) (items ! i) resp run else run)"

definition makeBatchRequestPromise :: "'i list \<Rightarrow> ('i \<Rightarrow> js_error + 'q)
    \<Rightarrow> ('i \<Rightarrow> 'r response \<Rightarrow> 's \<Rightarrow> 's) option \<Rightarrow> (nat \<times> 'r response) list \<Rightarrow> 's
    \<Rightarrow> ('q, 's) batchRun" where
  "makeBatchRequestPromise items getRequest handleItem deliveries s0 =
     (case addRequests getRequest items of
        Inl e \<Rightarrow>
          \<lparr>requests = [], executed = False, numResponses = 0, promise = Rejected e, store = s0\<rparr>
      | Inr qs \<Rightarrow>
          deliver (orNoop handleItem) items deliveries
            \<lparr>requests = qs, executed = True, numResponses = 0, promise = Pending, store = s0\<rparr>)"

text \<open>\<open>await\<close> of the returned promise, followed by the rest of the function.\<close>

definition await_batch :: "('q, 's) batchRun \<Rightarrow> ('s \<Rightarrow> 'a outcome) \<Rightarrow> 'a outcome" where
  "await_batch run rest =
     (case promise run of
        Resolved \<Rightarrow> rest (store run)
      | Rejected e \<Rightarrow> Threw e
      | Pending \<Rightarrow> NeverSettles)"

text \<open>
  The client the specification describes: the callback of every item is called exactly
  once, in any order.
\<close>

definition eachOnce :: "nat \<Rightarrow> (nat \<times> 'r) list \<Rightarrow> bool" where
  "eachOnce n deliveries = (distinct (map fst deliveries) \<and> set (map fst deliveries) = {..<n})"

section \<open>getApprovals: the allowance pass and the report\<close>

datatype blockTag = AtBlock nat | Latest

text \<open>
  The read-only calls the program puts into a batch (the addresses in them are taken to
  be addresses that web3 accepts): \<open>allowance(owner, spender)\<close>,
  \<open>balanceOf(owner)\<close> and \<open>decimals()\<close> on a token contract, and
  \<open>getAmountsOut(amountIn, path)\<close> on the router, each with its block.
\<close>

datatype request =
    AllowanceCall string string "string option" blockTag
  | BalanceOfCall string string blockTag
  | DecimalsCall string blockTag
  | GetAmountsOutCall nat "string list" blockTag

text \<open>
  \<open>const [contractAddress, spender] = key.split(".")\<close>. \<open>split\<close> never returns
  an empty array, so the first part is a string; the second is \<open>undefined\<close> when the
  key has no dot.
\<close>

definition contractOfKey :: "string \<Rightarrow> string" where
  "contractOfKey key = (case split_dot key of [] \<Rightarrow> [] | c # ps \<Rightarrow> c)"

definition spenderOfKey :: "string \<Rightarrow> string option" where
  "spenderOfKey key = nth_opt (split_dot key) 1"

text \<open>The filter that keeps the keys whose spender is not the zero address.\<close>

definition validApprovals :: "approvalData obj \<Rightarrow> string list" where
  "validApprovals approvalMap =
     filter (\<lambda>key. spenderOfKey key \<noteq> Some nullAddress) (obj_keys approvalMap)"

definition allowanceRequest :: "string \<Rightarrow> nat \<Rightarrow> string \<Rightarrow> js_error + request" where
  "allowanceRequest owner_address pinnedBlock key =
     Inr (AllowanceCall (contractOfKey key) owner_address (spenderOfKey key) (AtBlock pinnedBlock))"

text \<open>
  The handler of the allowance pass: on an error
  \<open>approvalMap[key].allowanceError = true\<close>, otherwise
  \<open>approvalMap[key].allowance = allowance\<close>. The keys it is called with are keys of
  \<open>approvalMap\<close>, so the entry it assigns to exists.
\<close>

definition allowanceOutcome :: "string response \<Rightarrow> approvalData \<Rightarrow> approvalData" where
  "allowanceOutcome resp d =
     (case resp of
        Inl error \<Rightarrow> d\<lparr>allowanceError := Some True\<rparr>
      | Inr result \<Rightarrow> d\<lparr>allowance := Some result\<rparr>)"

definition allowanceHandler :: "string \<Rightarrow> string response \<Rightarrow> approvalData obj \<Rightarrow> approvalData obj" where
  "allowanceHandler key resp approvalMap = obj_modify key (allowanceOutcome resp) approvalMap"

text \<open>An entry of the report: \<open>{contract: contractAddress, spender: spender, ...data}\<close>.\<close>

record approval = approvalData +
  contract :: string
  spender :: "string option"

record 'a report =
  owner :: string
  approvals :: "'a list"

definition toApproval :: "string \<times> approvalData \<Rightarrow> approval" where
  "toApproval kd =
     \<lparr>amount = amount (snd kd), allowance = allowance (snd kd),
      allowanceError = allowanceError (snd kd),
      contract = contractOfKey (fst kd), spender = spenderOfKey (fst kd)\<rparr>"

text \<open>
  \<open>getApprovals\<close>. \<open>pinnedBlock\<close> is the block number after
  \<open>blockNumber || await w3.eth.getBlockNumber()\<close>, \<open>pastLogs\<close> is what
  \<open>getPastLogs\<close> returned, \<open>allowanceResponses\<close> are the callback calls of the
  allowance batch. The report is built from all keys of \<open>approvalMap\<close>
  (\<open>Object.keys(approvalMap).map\<close>), not from \<open>validApprovals\<close>.
\<close>

definition getApprovals :: "string \<Rightarrow> nat \<Rightarrow> txLog list \<Rightarrow> (nat \<times> string response) list
    \<Rightarrow> approval report outcome" where
  "getApprovals owner_address pinnedBlock pastLogs allowanceResponses =
     (case reconstruct owner_address pastLogs of
        Inl e \<Rightarrow> Threw e
      | Inr approvalMap \<Rightarrow>
          await_batch
            (makeBatchRequestPromise (validApprovals approvalMap)
               (allowanceRequest owner_address pinnedBlock) (Some allowanceHandler)
               allowanceResponses approvalMap)
            (\<lambda>approvalMap'.
               Returned \<lparr>owner = owner_address, approvals = map toApproval approvalMap'\<rparr>))"

section \<open>addApprovalRiskScore\<close>

text \<open>
  A property read \<open>obj[key]\<close> turns its key into a string: \<open>undefined\<close> reads the
  property named \<open>undefined\<close>.
\<close>

definition propKey :: "string option \<Rightarrow> string" where
  "propKey k = (case k of None \<Rightarrow> ''undefined'' | Some s \<Rightarrow> s)"

text \<open>\<open>[...new Set(approvals.map(approval => approval.contract))]\<close>: first occurrences, in order.\<close>

definition tokenAddressesOf :: "approval list \<Rightarrow> string list" where
  "tokenAddressesOf as = rev (remdups (rev (map contract as)))"

subsection \<open>The balance pass\<close>

definition balanceRequest :: "string \<Rightarrow> nat \<Rightarrow> approval \<Rightarrow> js_error + request" where
  "balanceRequest owner_address pinnedBlock a =
     Inr (BalanceOfCall (contract a) owner_address (AtBlock pinnedBlock))"

text \<open>
  On an error \<open>balance = 0\<close>, the number; otherwise the value the client passed. The
  slot written is \<open>balances[approval.contract]\<close>.
\<close>

definition balanceHandler :: "approval \<Rightarrow> jsval response \<Rightarrow> (string \<rightharpoonup> jsval) \<Rightarrow> (string \<rightharpoonup> jsval)" where
  "balanceHandler a resp balances =
     (let balance = (case resp of Inl error \<Rightarrow> JNum (Finite 0) | Inr result \<Rightarrow> result)
      in balances(contract a \<mapsto> balance))"

definition balancePass :: "string \<Rightarrow> nat \<Rightarrow> approval list \<Rightarrow> (nat \<times> jsval response) list
    \<Rightarrow> (request, string \<rightharpoonup> jsval) batchRun" where
  "balancePass owner_address pinnedBlock as deliveries =
     makeBatchRequestPromise as (balanceRequest owner_address pinnedBlock) (Some balanceHandler)
       deliveries Map.empty"

subsection \<open>The decimals pass\<close>

definition decimalsRequest :: "nat \<Rightarrow> string \<Rightarrow> js_error + request" where
  "decimalsRequest pinnedBlock tokenAddress = Inr (DecimalsCall tokenAddress (AtBlock pinnedBlock))"

text \<open>On an error \<open>decimals = '18'\<close>; the result of a \<open>uint8\<close> call is a decimal string.\<close>

definition decimalsHandler :: "string \<Rightarrow> string response \<Rightarrow> (string \<rightharpoonup> string) \<Rightarrow> (string \<rightharpoonup> string)" where
  "decimalsHandler tokenAddress resp decimalsMap =
     (let decimals = (case resp of Inl error \<Rightarrow> ''18'' | Inr result \<Rightarrow> result)
      in decimalsMap(tokenAddress \<mapsto> decimals))"

definition decimalsPass :: "nat \<Rightarrow> string list \<Rightarrow> (nat \<times> string response) list
    \<Rightarrow> (request, string \<rightharpoonup> string) batchRun" where
  "decimalsPass pinnedBlock tokenAddresses deliveries =
     makeBatchRequestPromise tokenAddresses (decimalsRequest pinnedBlock) (Some decimalsHandler)
       deliveries Map.empty"

subsection \<open>The exchange-rate pass\<close>

definition WellKnownTokens_WETH :: string where
  "WellKnownTokens_WETH = ''0xc02aaa39b223fe8d0a0e5c4f27ead9083c756cc2''"

text \<open>
  \<open>getTokenWeiExchangeRateRequest\<close>: \<open>blockNumber || 'latest'\<close>, then the call
  \<open>getAmountsOut(10 ^ decimals, [tokenAddress, WETH])\<close>, where the exponent is
  \<open>new BN(decimals.toString(10), 10)\<close>. \<open>decimals\<close> is a string here, whose
  \<open>toString\<close> is the string itself; on \<open>undefined\<close> the method call raises a
  TypeError. Building the request encodes \<open>amountIn\<close> as a \<open>uint256\<close>: a value of
  \<open>2^256\<close> or more is refused with an error.
\<close>

definition getTokenWeiExchangeRateRequest :: "string \<Rightarrow> nat \<Rightarrow> string option \<Rightarrow> js_error + request" where
  "getTokenWeiExchangeRateRequest tokenAddress pinnedBlock decimals =
     (let tag = (if pinnedBlock = 0 then Latest else AtBlock pinnedBlock)
      in case decimals of
           None \<Rightarrow> Inl (TypeError ''decimals is undefined'')
         | Some d \<Rightarrow>
             (case new_BN d of
                Inl e \<Rightarrow> Inl e
              | Inr n \<Rightarrow>
                  if (10 :: nat) ^ n < 2 ^ 256
                  then Inr (GetAmountsOutCall (10 ^ n) [tokenAddress, WellKnownTokens_WETH] tag)
                  else Inl (Error ''value out-of-bounds'')))"

definition rateRequest :: "nat \<Rightarrow> (string \<rightharpoonup> string) \<Rightarrow> string \<Rightarrow> js_error + request" where
  "rateRequest pinnedBlock decimalsMap tokenAddress =
     getTokenWeiExchangeRateRequest tokenAddress pinnedBlock (decimalsMap tokenAddress)"

text \<open>
  On an error \<open>rates = [1, 0]\<close>; otherwise the array of decimal strings the call
  returned. \<open>amountInWei/amountInToken\<close> converts both operands to numbers; an element
  the array does not have is \<open>undefined\<close>, which converts to NaN.
\<close>

definition toNumberOpt :: "jsval option \<Rightarrow> jsnum" where
  "toNumberOpt v = (case v of None \<Rightarrow> NaN | Some x \<Rightarrow> toNumber x)"

definition quotedRate :: "string list response \<Rightarrow> jsnum" where
  "quotedRate resp =
     (let rates = (case resp of Inl error \<Rightarrow> [JNum (Finite 1), JNum (Finite 0)]
                             | Inr result \<Rightarrow> map JStr result);
          amountInToken = nth_opt rates 0;
          amountInWei = nth_opt rates 1
      in js_div (toNumberOpt amountInWei) (toNumberOpt amountInToken))"

definition rateHandler :: "string \<Rightarrow> string list response \<Rightarrow> (string \<rightharpoonup> jsnum) \<Rightarrow> (string \<rightharpoonup> jsnum)" where
  "rateHandler tokenAddress resp exchangeRates = exchangeRates(tokenAddress \<mapsto> quotedRate resp)"

definition ratesPass :: "nat \<Rightarrow> string list \<Rightarrow> (string \<rightharpoonup> string)
    \<Rightarrow> (nat \<times> string list response) list \<Rightarrow> (request, string \<rightharpoonup> jsnum) batchRun" where
  "ratesPass pinnedBlock tokenAddresses decimalsMap deliveries =
     makeBatchRequestPromise tokenAddresses (rateRequest pinnedBlock decimalsMap) (Some rateHandler)
       deliveries Map.empty"

subsection \<open>getRiskScore\<close>

text \<open>
  \<open>reputations[address] || (1 + (verifiedContracts.has(address) ? 1 : 0))\<close>: a
  reputation that is \<open>0\<close> (or NaN, or absent) is falsy and gives way to the baseline.
\<close>

definition reputation :: "(string \<rightharpoonup> jsnum) \<Rightarrow> string option list \<Rightarrow> string option \<Rightarrow> jsnum" where
  "reputation reputations verifiedContracts a =
     (let baseline = Finite (1 + (if a \<in> set verifiedContracts then 1 else 0))
      in case reputations (propKey a) of
           None \<Rightarrow> baseline
         | Some r \<Rightarrow> if num_truthy r then r else baseline)"

definition likelihood :: "(string \<rightharpoonup> jsnum) \<Rightarrow> string option list \<Rightarrow> string option \<Rightarrow> string option \<Rightarrow> jsnum" where
  "likelihood reputations verifiedContracts c s =
     js_mul (reputation reputations verifiedContracts c) (reputation reputations verifiedContracts s)"

text \<open>\<open>exchangeRates[token] * amount\<close>; a token without a rate reads \<open>undefined\<close>, that is NaN.\<close>

definition severity :: "(string \<rightharpoonup> jsnum) \<Rightarrow> string \<Rightarrow> jsval \<Rightarrow> jsnum" where
  "severity exchangeRates token amt =
     js_mul (case exchangeRates token of None \<Rightarrow> NaN | Some r \<Rightarrow> r) (toNumber amt)"

text \<open>
  \<open>BN.min(left, right)\<close> of bn.js is \<open>left.cmp(right) < 0 ? left : right\<close>. \<open>cmp\<close>
  first compares the \<open>negative\<close> fields of the two operands; an operand that is not a BN
  (a string, a number) has none, the test \<open>num.negative !== 0\<close> holds and \<open>cmp\<close>
  answers \<open>1\<close>: the right operand is returned as it is. \<open>left\<close> is the BN made from
  the approved amount.
\<close>

fun BN_min :: "nat \<Rightarrow> jsval \<Rightarrow> jsval" where
  "BN_min left (JBN right) = (if left < right then JBN left else JBN right)"
| "BN_min left right = right"

text \<open>\<open>balances[approval.contract] || new BN(0)\<close>.\<close>

definition balanceOrZero :: "(string \<rightharpoonup> jsval) \<Rightarrow> string \<Rightarrow> jsval" where
  "balanceOrZero balances c =
     (case balances c of
        None \<Rightarrow> JBN 0
      | Some b \<Rightarrow> if truthy b then b else JBN 0)"

definition amountAtRisk :: "(string \<rightharpoonup> jsval) \<Rightarrow> approval \<Rightarrow> js_error + jsval" where
  "amountAtRisk balances a =
     (case new_BN (amount a) of
        Inl e \<Rightarrow> Inl e
      | Inr approved \<Rightarrow> Inr (BN_min approved (balanceOrZero balances (contract a))))"

definition getRiskScore :: "(string \<rightharpoonup> jsnum) \<Rightarrow> string option list \<Rightarrow> (string \<rightharpoonup> jsnum)
    \<Rightarrow> (string \<rightharpoonup> jsval) \<Rightarrow> approval \<Rightarrow> js_error + jsnum" where
  "getRiskScore reputations verifiedContracts exchangeRates balances a =
     (case amountAtRisk balances a of
        Inl e \<Rightarrow> Inl e
      | Inr atRisk \<Rightarrow>
          Inr (js_mul (severity exchangeRates (contract a) atRisk)
                      (likelihood reputations verifiedContracts (Some (contract a)) (spender a))))"

record scoredApproval = approval +
  risk :: jsnum
  balance :: "jsval option"

text \<open>\<open>approvals.map(approval => ({...approval, risk: ..., balance: ...}))\<close>.\<close>

fun scoreAll :: "(string \<rightharpoonup> jsnum) \<Rightarrow> string option list \<Rightarrow> (string \<rightharpoonup> jsnum)
    \<Rightarrow> (string \<rightharpoonup> jsval) \<Rightarrow> approval list \<Rightarrow> js_error + scoredApproval list" where
  "scoreAll reputations verifiedContracts exchangeRates balances [] = Inr []"
| "scoreAll reputations verifiedContracts exchangeRates balances (a # as) =
     (case getRiskScore reputations verifiedContracts exchangeRates balances a of
        Inl e \<Rightarrow> Inl e
      | Inr r \<Rightarrow>
          (case scoreAll reputations verifiedContracts exchangeRates balances as of
             Inl e \<Rightarrow> Inl e
           | Inr rest \<Rightarrow>
               Inr (\<lparr>amount = amount a, allowance = allowance a,
                     allowanceError = allowanceError a, contract = contract a,
                     spender = spender a, risk = r,
                     balance = balances (contract a)\<rparr> # rest)))"

text \<open>
  \<open>addApprovalRiskScore\<close>. \<open>reputationsOpt\<close> is the option \<open>reputations\<close>
  (\<open>reputations || {}\<close>), \<open>pinnedBlock\<close> the block number after
  \<open>blockNumber || await w3.eth.getBlockNumber()\<close>, and the three lists are the callback
  calls of the three batches. With a truthy \<open>etherscanApiKey\<close> the loop over the token
  addresses reads the undeclared name \<open>reputation\<close>, and with no token address the
  statement after the loop reads \<open>url\<close> outside its block: a ReferenceError either
  way, so \<open>verifiedContracts\<close> is empty whenever the scores are computed.
\<close>

definition addApprovalRiskScore :: "approval report \<Rightarrow> nat \<Rightarrow> (string \<rightharpoonup> jsnum) option
    \<Rightarrow> string option \<Rightarrow> (nat \<times> jsval response) list \<Rightarrow> (nat \<times> string response) list
    \<Rightarrow> (nat \<times> string list response) list \<Rightarrow> scoredApproval report outcome" where
  "addApprovalRiskScore rep pinnedBlock reputationsOpt etherscanApiKey
       balanceResponses decimalsResponses rateResponses =
     (let reputations = (case reputationsOpt of None \<Rightarrow> Map.empty | Some r \<Rightarrow> r);
          tokenAddresses = tokenAddressesOf (approvals rep)
      in await_batch (balancePass (owner rep) pinnedBlock (approvals rep) balanceResponses)
           (\<lambda>balances.
         await_batch (decimalsPass pinnedBlock tokenAddresses decimalsResponses)
           (\<lambda>decimalsMap.
         await_batch (ratesPass pinnedBlock tokenAddresses decimalsMap rateResponses)
           (\<lambda>exchangeRates.
              if etherscanApiKey \<noteq> None \<and> etherscanApiKey \<noteq> Some []
              then Threw (ReferenceError (if tokenAddresses = [] then ''url is not defined''
                                          else ''reputation is not defined''))
              else (case scoreAll reputations [] exchangeRates balances (approvals rep) of
                      Inl e \<Rightarrow> Threw e
                    | Inr scored \<Rightarrow> Returned \<lparr>owner = owner rep, approvals = scored\<rparr>)))))"

text \<open>
  The key of the result map that the handler of each pass assigns to, as a function of
  the item it is called for.
\<close>

definition allowanceSlot :: "string \<Rightarrow> string" where
  "allowanceSlot key = key"

definition balanceSlot :: "approval \<Rightarrow> string" where
  "balanceSlot a = contract a"

definition tokenSlot :: "string \<Rightarrow> string" where
  "tokenSlot tokenAddress = tokenAddress"

text \<open>
  The handler calls of a batch, in the order of the callback calls, seen on the store
  alone.
\<close>

fun handled :: "('i \<Rightarrow> 'r response \<Rightarrow> 's \<Rightarrow> 's) \<Rightarrow> 'i list \<Rightarrow> (nat \<times> 'r response) list \<Rightarrow> 's \<Rightarrow> 's" where
  "handled h items [] s = s"
| "handled h items ((i, resp) # ds) s =
     handled h items ds (if i < length items then h (items ! i) resp s else s)"

section \<open>A worked scenario\<close>

text \<open>
  Owner \<open>O\<close>, token contract \<open>C\<close>, spender \<open>S\<close>: an approval of 100 at block 10 and
  one of 50 at block 20, and a third log whose spender is the zero address.
\<close>

definition ex_owner :: string where
  "ex_owner = ''0x224e69025A2f705C8f31EFB6694398f8Fd09ac5C''"

definition ex_owner_topic :: string where
  "ex_owner_topic = ''0x000000000000000000000000224e69025a2f705c8f31efb6694398f8fd09ac5c''"

definition ex_contract :: string where
  "ex_contract = ''0x6B175474E89094C44Da98b954EedeAC495271d0F''"

definition ex_spender :: string where
  "ex_spender = ''0x7a250d5630b4cf539739df2c5dacb4c659f2488d''"

definition ex_spender_topic :: string where
  "ex_spender_topic = ''0x0000000000000000000000007a250d5630b4cf539739df2c5dacb4c659f2488d''"

definition ex_zero_topic :: string where
  "ex_zero_topic = ''0x0000000000000000000000000000000000000000000000000000000000000000''"

definition ex_log_first :: txLog where
  "ex_log_first = \<lparr>address = ex_contract,
      topics = [ERC20Topics_APPROVAL, ex_owner_topic, ex_spender_topic],
      data = 100, blockNumber = 10, transactionIndex = 0, logIndex = 0\<rparr>"

definition ex_log_second :: txLog where
  "ex_log_second = \<lparr>address = ex_contract,
      topics = [ERC20Topics_APPROVAL, ex_owner_topic, ex_spender_topic],
      data = 50, blockNumber = 20, transactionIndex = 0, logIndex = 0\<rparr>"

definition ex_log_zero_spender :: txLog where
  "ex_log_zero_spender = \<lparr>address = ex_contract,
      topics = [ERC20Topics_APPROVAL, ex_owner_topic, ex_zero_topic],
      data = 7, blockNumber = 30, transactionIndex = 0, logIndex = 0\<rparr>"

definition ex_spender2 :: string where
  "ex_spender2 = ''0x1111111254fb6c44bac0bed2854e76f90643097d''"

definition ex_spender2_topic :: string where
  "ex_spender2_topic = ''0x0000000000000000000000001111111254fb6c44bac0bed2854e76f90643097d''"

definition ex_log_other_spender :: txLog where
  "ex_log_other_spender = \<lparr>address = ex_contract,
      topics = [ERC20Topics_APPROVAL, ex_owner_topic, ex_spender2_topic],
      data = 100, blockNumber = 15, transactionIndex = 2, logIndex = 5\<rparr>"

definition ex_log_same_position :: txLog where
  "ex_log_same_position = \<lparr>address = ex_contract,
      topics = [ERC20Topics_APPROVAL, ex_owner_topic, ex_spender2_topic],
      data = 60, blockNumber = 10, transactionIndex = 0, logIndex = 0\<rparr>"

definition ex_approval :: approval where
  "ex_approval = \<lparr>amount = ''50'', allowance = Some ''50'', allowanceError = None,
      contract = ex_contract, spender = Some ex_spender\<rparr>"

definition ex_approval2 :: approval where
  "ex_approval2 = \<lparr>amount = ''100'', allowance = Some ''100'', allowanceError = None,
      contract = ex_contract, spender = Some ex_spender2\<rparr>"

definition ex_report :: "approval report" where
  "ex_report = \<lparr>owner = ex_owner, approvals = [ex_approval]\<rparr>"

section \<open>The number model\<close>

lemma bitLength_nonneg: "0 \<le> bitLength n"
proof (induction n rule: bitLength.induct)
  case (1 n)
  then show ?case by (subst bitLength.simps) simp
qed

lemma bitLength_power: "(int k < bitLength n) = (2 ^ k \<le> n)"
proof (induction k arbitrary: n)
  case 0
  show ?case using bitLength_nonneg [of "n div 2"] by (subst bitLength.simps) auto
next
  case (Suc k)
  have "(int (Suc k) < bitLength n) = (0 < n \<and> int k < bitLength (n div 2))"
    by (subst bitLength.simps) auto
  also have "\<dots> = (0 < n \<and> 2 ^ k \<le> n div 2)" using Suc.IH by simp
  also have "\<dots> = (2 ^ Suc k \<le> n)"
  proof -
    have "(2 :: int) ^ k \<le> n div 2 \<longleftrightarrow> 2 ^ k * 2 \<le> n"
      by linarith
    moreover have "(2 :: int) ^ k * 2 \<le> n \<Longrightarrow> 0 < n"
    proof -
      assume "(2 :: int) ^ k * 2 \<le> n"
      moreover have "0 < (2 :: int) ^ k * 2" by simp
      ultimately show "0 < n" by linarith
    qed
    ultimately show ?thesis by (auto simp: mult.commute)
  qed
  finally show ?case .
qed

text \<open>The overflow test of the rounding is the comparison with \<open>2^1024\<close>.\<close>

lemma overflow_is_pow2_1024: "(1024 < bitLength \<lfloor>v\<rfloor>) = (pow2 1024 \<le> v)"
proof -
  have "(1024 < bitLength \<lfloor>v\<rfloor>) = (int 1024 < bitLength \<lfloor>v\<rfloor>)" by simp
  also have "\<dots> = ((2 :: int) ^ 1024 \<le> \<lfloor>v\<rfloor>)" by (rule bitLength_power)
  also have "\<dots> = (of_int ((2 :: int) ^ 1024) \<le> v)" by (rule le_floor_iff)
  also have "\<dots> = (pow2 1024 \<le> v)" by (simp add: pow2_def)
  finally show ?thesis .
qed

text \<open>
  Two evaluations: \<open>1/3*50\<close> is the double \<open>16.666666666666664\<close>, which is
  \<open>2345624805922133 / 2^47\<close>, and \<open>0 * Infinity\<close> is NaN.
\<close>

lemma rounding_example:
  "js_mul (js_div (Finite 1) (Finite 3)) (Finite 50) = Finite (2345624805922133 / 2 ^ 47)"
  by code_simp

lemma zero_times_infinity: "js_mul (Finite 0) PosInfinity = NaN"
  by simp

section \<open>Properties of the comparator and the sort\<close>








section \<open>Properties of the approval map\<close>

lemma obj_set_map_fst:
  "map fst (obj_set k v m) = (if k \<in> set (map fst m) then map fst m else map fst m @ [k])"
proof (induction m)
  case Nil
  then show ?case by simp
next
  case (Cons p m)
  obtain k' v' where p: "p = (k', v')" by (cases p)
  show ?case using Cons p by (cases "k' = k") (simp_all add: image_iff)
qed


lemma obj_set_distinct: "distinct (map fst m) \<Longrightarrow> distinct (map fst (obj_set k v m))"
  by (auto simp: obj_set_map_fst)


lemma approvalEntry_Inr:
  assumes "approvalEntry al l = Inr (k, d)"
  shows "k = approvalKeyOf l \<and> d = \<lparr>amount = toString10 (data l), allowance = None, allowanceError = None\<rparr>"
  using assms
  by (auto simp: approvalEntry_def approvalKeyOf_def spenderOf_def Let_def split: if_splits sum.splits)


lemma buildApprovalMap_distinct:
  assumes "buildApprovalMap al ls m = Inr m'" and "distinct (map fst m)"
  shows "distinct (map fst m')"
  using assms
proof (induction ls arbitrary: m)
  case Nil
  then show ?case by simp
next
  case (Cons l ls)
  then obtain k d where e: "approvalEntry al l = Inr (k, d)"
    and r: "buildApprovalMap al ls (obj_set k d m) = Inr m'"
    by (cases "approvalEntry al l") (auto split: prod.splits)
  show ?case by (rule Cons.IH [OF r obj_set_distinct [OF Cons.prems(2)]])
qed






subsection \<open>Evaluating the exchange-rate request\<close>

text \<open>
  The bound \<open>10^n < 2^256\<close> holds exactly up to \<open>n = 77\<close>; the request is evaluated with
  the bound in this form.
\<close>

lemma uint256_bound: "(10 :: nat) ^ n < 2 ^ 256 \<longleftrightarrow> n < 78"
proof
  assume a: "(10 :: nat) ^ n < 2 ^ 256"
  show "n < 78"
  proof (rule ccontr)
    assume "\<not> n < 78"
    then have "78 \<le> n" by simp
    then have "(10 :: nat) ^ 78 \<le> 10 ^ n" by (rule power_increasing) simp
    moreover have "(2 :: nat) ^ 256 < 10 ^ 78" by simp
    ultimately show False using a by linarith
  qed
next
  assume "n < 78"
  then have "n \<le> 77" by simp
  then have "(10 :: nat) ^ n \<le> 10 ^ 77" by (rule power_increasing) simp
  moreover have "(10 :: nat) ^ 77 < 2 ^ 256" by simp
  ultimately show "(10 :: nat) ^ n < 2 ^ 256" by linarith
qed

lemma getTokenWeiExchangeRateRequest_code:
  "getTokenWeiExchangeRateRequest tokenAddress pinnedBlock decimals =
     (let tag = (if pinnedBlock = 0 then Latest else AtBlock pinnedBlock)
      in case decimals of
           None \<Rightarrow> Inl (TypeError ''decimals is undefined'')
         | Some d \<Rightarrow>
             (case new_BN d of
                Inl e \<Rightarrow> Inl e
              | Inr n \<Rightarrow>
                  if n < 78
                  then Inr (GetAmountsOutCall (10 ^ n) [tokenAddress, WellKnownTokens_WETH] tag)
                  else Inl (Error ''value out-of-bounds'')))"
  unfolding getTokenWeiExchangeRateRequest_def uint256_bound ..

declare getTokenWeiExchangeRateRequest_code [code]

section \<open>Where the code departs from its description\<close>

lemma compareNumberKeys_equal_positions:
  assumes "blockNumber a = blockNumber b" and "transactionIndex a = transactionIndex b"
    and "logIndex a = logIndex b"
  shows "compareNumberKeys [blockNumber, transactionIndex, logIndex] a b
         = Inl (ReferenceError ''result is not defined'')"
  using assms by (simp add: Let_def)

lemma compareNumberKeys_other_positions:
  assumes "blockNumber a \<noteq> blockNumber b \<or> transactionIndex a \<noteq> transactionIndex b
           \<or> logIndex a \<noteq> logIndex b"
  shows "\<exists>v. compareNumberKeys [blockNumber, transactionIndex, logIndex] a b = Inr v \<and> v \<noteq> 0"
  using assms by (auto simp: Let_def)

text \<open>
  Claim C10. The comparator is not total: for the two logs \<open>ex_log_first\<close> and
  \<open>ex_log_same_position\<close>, which agree on blockNumber, transactionIndex and logIndex, it
  raises a ReferenceError instead of returning 0; the sort of a list that holds both
  raises it, and so does \<open>getApprovals\<close>.
\<close>

theorem C10_equal_positions_throw:
  "compareNumberKeys [blockNumber, transactionIndex, logIndex] ex_log_first ex_log_same_position
     = Inl (ReferenceError ''result is not defined'')
   \<and> sortLogs [ex_log_first, ex_log_same_position] = Inl (ReferenceError ''result is not defined'')
   \<and> getApprovals ex_owner 100 [ex_log_first, ex_log_same_position] []
     = Threw (ReferenceError ''result is not defined'')"
  by code_simp

lemma deliver_no_items: "deliver h [] ds run = run"
  by (induction ds arbitrary: run) auto

text \<open>
  Claim C4. With no item, whatever the request builder, the handler and the client are:
  \<open>batch.execute()\<close> is called (with an empty batch), no callback exists that could call
  \<open>resolve\<close>, the promise stays pending, and the \<open>await\<close> of it never continues.
\<close>

theorem C4_empty_batch_never_resolves:
  "promise (makeBatchRequestPromise [] getRequest handleItem deliveries s0) = Pending
   \<and> executed (makeBatchRequestPromise [] getRequest handleItem deliveries s0) = True
   \<and> requests (makeBatchRequestPromise [] getRequest handleItem deliveries s0) = []
   \<and> await_batch (makeBatchRequestPromise [] getRequest handleItem deliveries s0) rest
       = NeverSettles"
  by (simp add: makeBatchRequestPromise_def deliver_no_items await_batch_def)

text \<open>
  Claim C2. For the logs of the scenario (two approvals of spender \<open>S\<close> and one whose
  spender is the zero address) the report that \<open>getApprovals\<close> returns lists the
  zero-address approval: it was left out of the allowance batch only, and carries neither
  \<open>allowance\<close> nor \<open>allowanceError\<close>.
\<close>

theorem C2_zero_spender_is_reported:
  "getApprovals ex_owner 100 [ex_log_first, ex_log_second, ex_log_zero_spender] [(0, Inr ''50'')]
     = Returned \<lparr>owner = ex_owner,
         approvals =
           [\<lparr>amount = ''50'', allowance = Some ''50'', allowanceError = None,
             contract = ex_contract, spender = Some ex_spender\<rparr>,
            \<lparr>amount = ''7'', allowance = None, allowanceError = None,
             contract = ex_contract, spender = Some nullAddress\<rparr>]\<rparr>"
  by code_simp

lemma reputation_zero_is_baseline:
  assumes "reputations (propKey a) = Some (Finite 0)"
  shows "reputation reputations [] a = Finite 1"
  using assms by (simp add: reputation_def)

text \<open>
  Claim C3. With \<open>reputations = {C: 0}\<close>, an approval of 50 on \<open>C\<close>, a balance of 50
  and an exchange rate of 2 (a token of 2 decimals: 200 wei for 100 units), the reputation used for \<open>C\<close> is the baseline 1 and the risk
  is 100, not 0.
\<close>

theorem C3_zero_reputation_is_ignored:
  "reputation [ex_contract \<mapsto> Finite 0] [] (Some ex_contract) = Finite 1
   \<and> addApprovalRiskScore ex_report 100 (Some [ex_contract \<mapsto> Finite 0]) None
        [(0, Inr (JStr ''50''))] [(0, Inr ''2'')] [(0, Inr [''100'', ''200''])]
     = Returned \<lparr>owner = ex_owner,
         approvals =
           [\<lparr>amount = ''50'', allowance = Some ''50'', allowanceError = None,
             contract = ex_contract, spender = Some ex_spender,
             risk = Finite 100, balance = Some (JStr ''50'')\<rparr>]\<rparr>"
  by code_simp

lemma amountAtRisk_string_balance:
  assumes "balances (contract a) = Some (JStr s)" and "s \<noteq> []" and "new_BN (amount a) = Inr n"
  shows "amountAtRisk balances a = Inr (JStr s)"
  using assms by (simp add: amountAtRisk_def balanceOrZero_def)

text \<open>
  Claim C6. With an approved amount of 50 and a balance call that answers \<open>'1000'\<close>
  (a decimal string, as web3 answers), the amount at risk is the string \<open>'1000'\<close>: more
  than the approved amount. With an exchange rate of 2 the risk is 2000, where the
  minimum would give 100.
\<close>

theorem C6_amount_at_risk_exceeds_approval:
  "amountAtRisk [ex_contract \<mapsto> JStr ''1000''] ex_approval = Inr (JStr ''1000'')
   \<and> new_BN (amount ex_approval) = Inr 50
   \<and> addApprovalRiskScore ex_report 100 None None
        [(0, Inr (JStr ''1000''))] [(0, Inr ''2'')] [(0, Inr [''100'', ''200''])]
     = Returned \<lparr>owner = ex_owner,
         approvals =
           [\<lparr>amount = ''50'', allowance = Some ''50'', allowanceError = None,
             contract = ex_contract, spender = Some ex_spender,
             risk = Finite 2000, balance = Some (JStr ''1000'')\<rparr>]\<rparr>"
  by code_simp

section \<open>Every callback called exactly once\<close>

lemma eachOnce_length:
  assumes "eachOnce n ds"
  shows "length ds = n"
proof -
  have "length ds = length (map fst ds)" by simp
  also have "\<dots> = card (set (map fst ds))"
    using assms distinct_card [of "map fst ds"] by (simp add: eachOnce_def)
  also have "\<dots> = n" using assms by (simp add: eachOnce_def)
  finally show ?thesis .
qed

lemma eachOnce_bound:
  assumes "eachOnce n ds" and "(i, r) \<in> set ds"
  shows "i < n"
proof -
  have "i \<in> set (map fst ds)" using assms(2) by force
  then show ?thesis using assms(1) by (simp add: eachOnce_def)
qed

lemma eachOnce_covers:
  assumes "eachOnce n ds" and "i < n"
  shows "\<exists>r. (i, r) \<in> set ds"
proof -
  have "i \<in> set (map fst ds)" using assms by (simp add: eachOnce_def)
  then show ?thesis by auto
qed

lemma cb_fields:
  "requests (cb h n item resp run) = requests run"
  "executed (cb h n item resp run) = executed run"
  "numResponses (cb h n item resp run) = numResponses run + 1"
  "store (cb h n item resp run) = h item resp (store run)"
  by (simp_all add: cb_def Let_def)

lemma cb_promise:
  "promise (cb h n item resp run) =
     (if numResponses run + 1 = n then (case promise run of Pending \<Rightarrow> Resolved | p \<Rightarrow> p)
      else promise run)"
  by (simp add: cb_def Let_def)

lemma deliver_requests: "requests (deliver h items ds run) = requests run"
  by (induction ds arbitrary: run) (auto simp: cb_fields)

lemma deliver_executed: "executed (deliver h items ds run) = executed run"
proof (induction ds arbitrary: run)
  case Nil
  then show ?case by simp
next
  case (Cons d ds)
  obtain i resp where d: "d = (i, resp)" by (cases d)
  show ?case unfolding d by (simp add: Cons.IH cb_fields)
qed

lemma deliver_store: "store (deliver h items ds run) = handled h items ds (store run)"
  by (induction ds arbitrary: run) (auto simp: cb_fields)

lemma deliver_resolved_stays:
  assumes "promise run = Resolved"
  shows "promise (deliver h items ds run) = Resolved"
  using assms by (induction ds arbitrary: run) (auto simp: cb_promise)

lemma deliver_resolves:
  assumes "\<forall>d\<in>set ds. fst d < length items"
    and "promise run = Pending"
    and "numResponses run < length items"
    and "length items \<le> numResponses run + length ds"
  shows "promise (deliver h items ds run) = Resolved"
  using assms
proof (induction ds arbitrary: run)
  case Nil
  then show ?case by simp
next
  case (Cons d ds)
  obtain i resp where d: "d = (i, resp)" by (cases d)
  have i: "i < length items" using Cons.prems(1) d by simp
  let ?run = "cb h (length items) (items ! i) resp run"
  have step: "deliver h items (d # ds) run = deliver h items ds ?run" using d i by simp
  show ?case
  proof (cases "numResponses run + 1 = length items")
    case True
    then have "promise ?run = Resolved" using Cons.prems(2) by (simp add: cb_promise)
    then show ?thesis unfolding step by (rule deliver_resolved_stays)
  next
    case False
    have p: "promise ?run = Pending" using False Cons.prems(2) by (simp add: cb_promise)
    have n: "numResponses ?run < length items" using False Cons.prems(3) by (simp add: cb_fields)
    have l: "length items \<le> numResponses ?run + length ds"
      using Cons.prems(4) by (simp add: cb_fields)
    have b: "\<forall>d\<in>set ds. fst d < length items" using Cons.prems(1) by simp
    show ?thesis unfolding step by (rule Cons.IH [OF b p n l])
  qed
qed

lemma batch_resolves:
  assumes "eachOnce (length items) ds" and "items \<noteq> []"
    and "addRequests getRequest items = Inr qs"
  shows "promise (makeBatchRequestPromise items getRequest (Some h) ds s0) = Resolved
       \<and> store (makeBatchRequestPromise items getRequest (Some h) ds s0) = handled h items ds s0
       \<and> requests (makeBatchRequestPromise items getRequest (Some h) ds s0) = qs"
proof -
  let ?run0 = "\<lparr>requests = qs, executed = True, numResponses = 0, promise = Pending, store = s0\<rparr>"
  have m: "makeBatchRequestPromise items getRequest (Some h) ds s0 = deliver h items ds ?run0"
    using assms(3) by (simp add: makeBatchRequestPromise_def orNoop_def)
  have b: "\<forall>d\<in>set ds. fst d < length items"
    using eachOnce_bound [OF assms(1)] by auto
  have l: "length ds = length items" by (rule eachOnce_length [OF assms(1)])
  have "promise (deliver h items ds ?run0) = Resolved"
    by (rule deliver_resolves [OF b]) (use assms(2) l in simp_all)
  then show ?thesis unfolding m by (simp add: deliver_store deliver_requests)
qed

lemma addRequests_total:
  assumes "\<forall>item\<in>set items. \<exists>q. getRequest item = Inr q"
  shows "\<exists>qs. addRequests getRequest items = Inr qs \<and> length qs = length items
           \<and> (\<forall>i<length items. getRequest (items ! i) = Inr (qs ! i))"
  using assms
proof (induction items)
  case Nil
  then show ?case by simp
next
  case (Cons item items)
  then obtain q where q: "getRequest item = Inr q" by auto
  from Cons obtain qs where qs: "addRequests getRequest items = Inr qs" "length qs = length items"
    "\<forall>i<length items. getRequest (items ! i) = Inr (qs ! i)" by auto
  have "addRequests getRequest (item # items) = Inr (q # qs)" using q qs by simp
  moreover have "\<forall>i<length (item # items). getRequest ((item # items) ! i) = Inr ((q # qs) ! i)"
    using q qs(3) by (auto simp: nth_Cons split: nat.splits)
  ultimately show ?case using qs(2) by auto
qed

text \<open>A handler that assigns one slot of a map: what the map holds after all calls.\<close>

lemma handled_update_other:
  assumes h: "\<And>item resp s. h item resp s = s(slot item \<mapsto> val resp)"
    and "\<forall>d\<in>set ds. fst d < length items \<longrightarrow> slot (items ! fst d) \<noteq> k"
  shows "handled h items ds s k = s k"
  using assms(2)
proof (induction ds arbitrary: s)
  case Nil
  then show ?case by simp
next
  case (Cons d ds)
  obtain i resp where d: "d = (i, resp)" by (cases d)
  show ?case using Cons d by (auto simp: h)
qed

lemma handled_update_unique:
  assumes h: "\<And>item resp s. h item resp s = s(slot item \<mapsto> val resp)"
    and "distinct (map fst ds)"
    and "\<forall>d\<in>set ds. fst d < length items"
    and "distinct (map slot items)"
    and "(i, resp) \<in> set ds"
  shows "handled h items ds s (slot (items ! i)) = Some (val resp)"
  using assms(2,3,5)
proof (induction ds arbitrary: s)
  case Nil
  then show ?case by simp
next
  case (Cons d ds)
  obtain j r where d: "d = (j, r)" by (cases d)
  have j: "j < length items" using Cons.prems(2) d by simp
  have step: "handled h items (d # ds) s = handled h items ds (s(slot (items ! j) \<mapsto> val r))"
    using d j by (simp add: h)
  show ?case
  proof (cases "(i, resp) \<in> set ds")
    case True
    then show ?thesis unfolding step using Cons.IH Cons.prems by simp
  next
    case False
    then have e: "j = i" "r = resp" using Cons.prems(3) d by auto
    have "\<forall>d'\<in>set ds. fst d' < length items \<longrightarrow> slot (items ! fst d') \<noteq> slot (items ! i)"
    proof (intro ballI impI)
      fix d' assume d': "d' \<in> set ds" "fst d' < length items"
      then have "fst d' \<noteq> i" using Cons.prems(1) d e by auto
      then show "slot (items ! fst d') \<noteq> slot (items ! i)"
        using assms(4) d'(2) j e by (simp add: distinct_conv_nth)
    qed
    from handled_update_other [of h slot val, OF h this]
    show ?thesis unfolding step using e by simp
  qed
qed

text \<open>When every call for a slot carries the same value, the slot ends with that value.\<close>

lemma handled_update_same:
  assumes h: "\<And>item resp s. h item resp s = s(slot item \<mapsto> val resp)"
    and "\<forall>d\<in>set ds. fst d < length items \<longrightarrow> slot (items ! fst d) = k \<longrightarrow> val (snd d) = v"
    and "s k = Some v \<or> (\<exists>d\<in>set ds. fst d < length items \<and> slot (items ! fst d) = k)"
  shows "handled h items ds s k = Some v"
  using assms(2,3)
proof (induction ds arbitrary: s)
  case Nil
  then show ?case by simp
next
  case (Cons d ds)
  obtain j r where d: "d = (j, r)" by (cases d)
  show ?case
  proof (cases "j < length items \<and> slot (items ! j) = k")
    case True
    then have v: "val r = v" using Cons.prems(1) d by auto
    have "handled h items (d # ds) s = handled h items ds (s(k \<mapsto> v))"
      using d True v by (simp add: h)
    moreover have "handled h items ds (s(k \<mapsto> v)) k = Some v"
      by (rule Cons.IH) (use Cons.prems(1) in auto)
    ultimately show ?thesis by simp
  next
    case False
    have "handled h items (d # ds) s k
          = handled h items ds (if j < length items then s(slot (items ! j) \<mapsto> val r) else s) k"
      using d by (simp add: h)
    moreover have "handled h items ds (if j < length items then s(slot (items ! j) \<mapsto> val r) else s) k = Some v"
    proof (rule Cons.IH)
      show "\<forall>d\<in>set ds. fst d < length items \<longrightarrow> slot (items ! fst d) = k \<longrightarrow> val (snd d) = v"
        using Cons.prems(1) by simp
      show "(if j < length items then s(slot (items ! j) \<mapsto> val r) else s) k = Some v \<or>
            (\<exists>d\<in>set ds. fst d < length items \<and> slot (items ! fst d) = k)"
        using Cons.prems(2) False d by auto
    qed
    ultimately show ?thesis by simp
  qed
qed

section \<open>The allowance pass\<close>

lemma obj_modify_map_fst: "map fst (obj_modify k f m) = map fst m"
proof (induction m)
  case Nil
  then show ?case by simp
next
  case (Cons p m)
  obtain k' v' where p: "p = (k', v')" by (cases p)
  show ?case using Cons p by simp
qed

lemma obj_modify_map_of:
  "map_of (obj_modify k f m) k' = (if k' = k then map_option f (map_of m k) else map_of m k')"
proof (induction m)
  case Nil
  then show ?case by simp
next
  case (Cons p m)
  obtain k'' v' where p: "p = (k'', v')" by (cases p)
  show ?case using Cons p by auto
qed

lemma allowanceHandler_apply:
  "allowanceHandler key resp m = obj_modify key (allowanceOutcome resp) m"
  by (simp add: allowanceHandler_def)

lemma handled_modify_keys:
  "map fst (handled (\<lambda>item resp. obj_modify (slot item) (f resp)) items ds m) = map fst m"
proof (induction ds arbitrary: m)
  case Nil
  then show ?case by simp
next
  case (Cons d ds)
  obtain i resp where d: "d = (i, resp)" by (cases d)
  show ?case unfolding d by (simp add: Cons.IH obj_modify_map_fst)
qed

lemma handled_modify_other:
  assumes "\<forall>d\<in>set ds. fst d < length items \<longrightarrow> slot (items ! fst d) \<noteq> k"
  shows "map_of (handled (\<lambda>item resp. obj_modify (slot item) (f resp)) items ds m) k = map_of m k"
  using assms
proof (induction ds arbitrary: m)
  case Nil
  then show ?case by simp
next
  case (Cons d ds)
  obtain i resp where d: "d = (i, resp)" by (cases d)
  have ih: "map_of (handled (\<lambda>item resp. obj_modify (slot item) (f resp)) items ds m') k = map_of m' k" for m'
    by (rule Cons.IH) (use Cons.prems in simp)
  show ?case unfolding d using Cons.prems d
    by (auto simp: ih obj_modify_map_of)
qed

lemma allowanceHandler_eq:
  "allowanceHandler = (\<lambda>key resp. obj_modify key (allowanceOutcome resp))"
  by (intro ext) (simp add: allowanceHandler_def)

lemma handled_allowance_keys:
  "map fst (handled allowanceHandler items ds m) = map fst m"
  unfolding allowanceHandler_eq by (rule handled_modify_keys [of "\<lambda>key. key"])

lemma handled_allowance_other:
  assumes "\<forall>d\<in>set ds. fst d < length items \<longrightarrow> items ! fst d \<noteq> k"
  shows "map_of (handled allowanceHandler items ds m) k = map_of m k"
  unfolding allowanceHandler_eq
  by (rule handled_modify_other [of ds items "\<lambda>key. key"]) (rule assms)

lemma handled_allowance_unique:
  assumes "distinct (map fst ds)"
    and "\<forall>d\<in>set ds. fst d < length items"
    and "distinct items"
    and "(i, resp) \<in> set ds"
  shows "map_of (handled allowanceHandler items ds m) (items ! i)
         = map_option (allowanceOutcome resp) (map_of m (items ! i))"
  using assms(1,2,4)
proof (induction ds arbitrary: m)
  case Nil
  then show ?case by simp
next
  case (Cons d ds)
  obtain j r where d: "d = (j, r)" by (cases d)
  have j: "j < length items" using Cons.prems(2) d by simp
  have step: "handled allowanceHandler items (d # ds) m
              = handled allowanceHandler items ds (obj_modify (items ! j) (allowanceOutcome r) m)"
    using d j by (simp add: allowanceHandler_apply)
  show ?case
  proof (cases "(i, resp) \<in> set ds")
    case True
    have "j \<noteq> i" using True Cons.prems(1) d by force
    moreover have "i < length items" using True Cons.prems(2) by auto
    ultimately have ne: "items ! i \<noteq> items ! j"
      using assms(3) j by (simp add: distinct_conv_nth)
    have "map_of (handled allowanceHandler items ds (obj_modify (items ! j) (allowanceOutcome r) m)) (items ! i)
          = map_option (allowanceOutcome resp) (map_of (obj_modify (items ! j) (allowanceOutcome r) m) (items ! i))"
      by (rule Cons.IH) (use Cons.prems True in simp_all)
    then show ?thesis unfolding step using ne by (simp add: obj_modify_map_of)
  next
    case False
    then have e: "j = i" "r = resp" using Cons.prems(3) d by auto
    have "\<forall>d'\<in>set ds. fst d' < length items \<longrightarrow> items ! fst d' \<noteq> items ! i"
    proof (intro ballI impI)
      fix d' assume d': "d' \<in> set ds" "fst d' < length items"
      then have "fst d' \<noteq> i" using Cons.prems(1) d e by auto
      then show "items ! fst d' \<noteq> items ! i"
        using assms(3) d'(2) j e by (simp add: distinct_conv_nth)
    qed
    from handled_allowance_other [OF this]
    show ?thesis unfolding step using e by (simp add: obj_modify_map_of)
  qed
qed

lemma obj_set_subset: "set (obj_set k v m) \<subseteq> insert (k, v) (set m)"
proof (induction m)
  case Nil
  then show ?case by simp
next
  case (Cons p m)
  obtain k' v' where p: "p = (k', v')" by (cases p)
  show ?case using Cons p by auto
qed

lemma buildApprovalMap_fresh:
  assumes "buildApprovalMap al ls m = Inr m'"
    and "\<forall>e\<in>set m. allowance (snd e) = None \<and> allowanceError (snd e) = None"
  shows "\<forall>e\<in>set m'. allowance (snd e) = None \<and> allowanceError (snd e) = None"
  using assms
proof (induction ls arbitrary: m)
  case Nil
  then show ?case by simp
next
  case (Cons l ls)
  obtain k d where e: "approvalEntry al l = Inr (k, d)"
    and r: "buildApprovalMap al ls (obj_set k d m) = Inr m'"
    using Cons.prems(1) by (cases "approvalEntry al l") (auto split: prod.splits)
  have d: "allowance d = None \<and> allowanceError d = None"
    using approvalEntry_Inr [OF e] by simp
  have "\<forall>e\<in>set (obj_set k d m). allowance (snd e) = None \<and> allowanceError (snd e) = None"
  proof
    fix e' assume "e' \<in> set (obj_set k d m)"
    then have "e' = (k, d) \<or> e' \<in> set m" using obj_set_subset [of k d m] by blast
    then show "allowance (snd e') = None \<and> allowanceError (snd e') = None"
    proof
      assume "e' = (k, d)"
      then show ?thesis using d by simp
    next
      assume "e' \<in> set m"
      then show ?thesis using Cons.prems(2) by blast
    qed
  qed
  from Cons.IH [OF r this] show ?case .
qed

lemma reconstruct_fresh:
  assumes "reconstruct owner_address pastLogs = Inr approvalMap"
    and "obj_get approvalMap k = Some d"
  shows "d = \<lparr>amount = amount d, allowance = None, allowanceError = None\<rparr>"
proof -
  obtain ys where b: "buildApprovalMap (toLowerCase owner_address) ys [] = Inr approvalMap"
    using assms(1) unfolding reconstruct_def by (cases "sortLogs pastLogs") auto
  have "(k, d) \<in> set approvalMap" using assms(2) by (simp add: obj_get_def map_of_SomeD)
  with buildApprovalMap_fresh [OF b] have "allowance d = None \<and> allowanceError d = None"
    by force
  then show ?thesis by simp
qed

lemma reconstruct_distinct:
  assumes "reconstruct owner_address pastLogs = Inr approvalMap"
  shows "distinct (obj_keys approvalMap)"
proof -
  obtain ys where b: "buildApprovalMap (toLowerCase owner_address) ys [] = Inr approvalMap"
    using assms(1) unfolding reconstruct_def by (cases "sortLogs pastLogs") auto
  show ?thesis using buildApprovalMap_distinct [OF b] by (simp add: obj_keys_def)
qed

lemma addRequests_allowance:
  "addRequests (allowanceRequest owner_address pinnedBlock) items
   = Inr (map (\<lambda>key. AllowanceCall (contractOfKey key) owner_address (spenderOfKey key)
                      (AtBlock pinnedBlock)) items)"
  by (induction items) (simp_all add: allowanceRequest_def)

text \<open>
  Claim C5. When the reconstruction succeeds, at least one key has a spender other than
  the zero address, and the client calls every callback of the allowance batch exactly
  once, \<open>getApprovals\<close> returns, and its report is the map of the approvals with the same
  keys in which, for every response: the entry of that response's key was \<open>{amount}\<close>
  and now is \<open>{amount, allowanceError: true}\<close> without \<open>allowance\<close> when the response is
  an error, and \<open>{amount, allowance}\<close> without \<open>allowanceError\<close> when it is a result.
  Entries outside the batch are unchanged.
\<close>

theorem C5_allowance_fault_isolation:
  assumes "reconstruct owner_address pastLogs = Inr approvalMap"
    and "validApprovals approvalMap \<noteq> []"
    and "eachOnce (length (validApprovals approvalMap)) allowanceResponses"
  shows "\<exists>finalMap.
           getApprovals owner_address pinnedBlock pastLogs allowanceResponses
             = Returned \<lparr>owner = owner_address, approvals = map toApproval finalMap\<rparr>
         \<and> obj_keys finalMap = obj_keys approvalMap
         \<and> (\<forall>d\<in>set allowanceResponses.
              \<exists>amt. obj_get approvalMap (validApprovals approvalMap ! fst d)
                      = Some \<lparr>amount = amt, allowance = None, allowanceError = None\<rparr>
                  \<and> obj_get finalMap (validApprovals approvalMap ! fst d)
                      = Some (case snd d of
                                Inl error \<Rightarrow> \<lparr>amount = amt, allowance = None, allowanceError = Some True\<rparr>
                              | Inr result \<Rightarrow> \<lparr>amount = amt, allowance = Some result, allowanceError = None\<rparr>))
         \<and> (\<forall>k. k \<notin> set (validApprovals approvalMap) \<longrightarrow> obj_get finalMap k = obj_get approvalMap k)"
proof -
  let ?items = "validApprovals approvalMap"
  let ?final = "handled allowanceHandler ?items allowanceResponses approvalMap"
  note rq = addRequests_allowance [of owner_address pinnedBlock ?items]
  note br = batch_resolves [OF assms(3) assms(2) rq, of allowanceHandler approvalMap]
  have ret: "getApprovals owner_address pinnedBlock pastLogs allowanceResponses
             = Returned \<lparr>owner = owner_address, approvals = map toApproval ?final\<rparr>"
    using assms(1) br by (simp add: getApprovals_def await_batch_def)
  have keys: "obj_keys ?final = obj_keys approvalMap"
    by (simp add: obj_keys_def handled_allowance_keys)
  have dk: "distinct (obj_keys approvalMap)" by (rule reconstruct_distinct [OF assms(1)])
  have di: "distinct ?items" using dk by (simp add: validApprovals_def)
  have dd: "distinct (map fst allowanceResponses)" using assms(3) by (simp add: eachOnce_def)
  have bd: "\<forall>d\<in>set allowanceResponses. fst d < length ?items"
    using eachOnce_bound [OF assms(3)] by auto
  have each: "\<exists>amt. obj_get approvalMap (?items ! fst d)
                      = Some \<lparr>amount = amt, allowance = None, allowanceError = None\<rparr>
                  \<and> obj_get ?final (?items ! fst d)
                      = Some (case snd d of
                                Inl error \<Rightarrow> \<lparr>amount = amt, allowance = None, allowanceError = Some True\<rparr>
                              | Inr result \<Rightarrow> \<lparr>amount = amt, allowance = Some result, allowanceError = None\<rparr>)"
    if d: "d \<in> set allowanceResponses" for d
  proof -
    obtain i resp where ir: "d = (i, resp)" by (cases d)
    have i: "i < length ?items" using bd d ir by auto
    then have "?items ! i \<in> set ?items" by simp
    then have "?items ! i \<in> set (map fst approvalMap)"
      by (simp add: validApprovals_def obj_keys_def)
    then obtain v where v: "map_of approvalMap (?items ! i) = Some v"
      by (metis map_of_eq_None_iff not_Some_eq set_map)
    then have g: "obj_get approvalMap (?items ! i) = Some v" by (simp add: obj_get_def)
    from reconstruct_fresh [OF assms(1) g]
    have fv: "v = \<lparr>amount = amount v, allowance = None, allowanceError = None\<rparr>" .
    have "map_of ?final (?items ! i) = map_option (allowanceOutcome resp) (map_of approvalMap (?items ! i))"
      by (rule handled_allowance_unique [OF dd bd di]) (use d ir in simp)
    then have f: "obj_get ?final (?items ! i) = Some (allowanceOutcome resp v)"
      using v by (simp add: obj_get_def)
    have o: "allowanceOutcome resp v =
          (case resp of
             Inl error \<Rightarrow> \<lparr>amount = amount v, allowance = None, allowanceError = Some True\<rparr>
           | Inr result \<Rightarrow> \<lparr>amount = amount v, allowance = Some result, allowanceError = None\<rparr>)"
      by (subst fv) (simp add: allowanceOutcome_def split: sum.splits)
    show ?thesis
      apply (rule exI [of _ "amount v"])
      using g fv f o ir by simp
  qed
  have other: "obj_get ?final k = obj_get approvalMap k" if "k \<notin> set ?items" for k
  proof -
    have "\<forall>d\<in>set allowanceResponses. fst d < length ?items \<longrightarrow> ?items ! fst d \<noteq> k"
      using that by (metis nth_mem)
    from handled_allowance_other [OF this] show ?thesis by (simp add: obj_get_def)
  qed
  show ?thesis
    apply (rule exI [of _ ?final])
    using ret keys each other by blast
qed

theorem C5_scenario_witness:
  "reconstruct ex_owner [ex_log_first, ex_log_other_spender, ex_log_zero_spender]
     = Inr [(join_dot ex_contract ex_spender, \<lparr>amount = ''100'', allowance = None, allowanceError = None\<rparr>),
            (join_dot ex_contract ex_spender2, \<lparr>amount = ''100'', allowance = None, allowanceError = None\<rparr>),
            (join_dot ex_contract nullAddress, \<lparr>amount = ''7'', allowance = None, allowanceError = None\<rparr>)]
   \<and> validApprovals [(join_dot ex_contract ex_spender, \<lparr>amount = ''100'', allowance = None, allowanceError = None\<rparr>),
            (join_dot ex_contract ex_spender2, \<lparr>amount = ''100'', allowance = None, allowanceError = None\<rparr>),
            (join_dot ex_contract nullAddress, \<lparr>amount = ''7'', allowance = None, allowanceError = None\<rparr>)]
       = [join_dot ex_contract ex_spender, join_dot ex_contract ex_spender2]
   \<and> eachOnce 2 ([(1, Inl (RpcError ''execution reverted'')), (0, Inr ''100'')]
                     :: (nat \<times> string response) list)
   \<and> (\<exists>finalMap.
         getApprovals ex_owner 100 [ex_log_first, ex_log_other_spender, ex_log_zero_spender]
             [(1, Inl (RpcError ''execution reverted'')), (0, Inr ''100'')]
           = Returned \<lparr>owner = ex_owner, approvals = map toApproval finalMap\<rparr>
         \<and> obj_get finalMap (join_dot ex_contract ex_spender2)
             = Some \<lparr>amount = ''100'', allowance = None, allowanceError = Some True\<rparr>
         \<and> obj_get finalMap (join_dot ex_contract ex_spender)
             = Some \<lparr>amount = ''100'', allowance = Some ''100'', allowanceError = None\<rparr>)"
proof -
  let ?m = "[(join_dot ex_contract ex_spender, \<lparr>amount = ''100'', allowance = None, allowanceError = None\<rparr>),
            (join_dot ex_contract ex_spender2, \<lparr>amount = ''100'', allowance = None, allowanceError = None\<rparr>),
            (join_dot ex_contract nullAddress, \<lparr>amount = ''7'', allowance = None, allowanceError = None\<rparr>)]"
  let ?ds = "[(1, Inl (RpcError ''execution reverted'')), (0, Inr ''100'')] :: (nat \<times> string response) list"
  have r: "reconstruct ex_owner [ex_log_first, ex_log_other_spender, ex_log_zero_spender] = Inr ?m"
    by code_simp
  have v: "validApprovals ?m = [join_dot ex_contract ex_spender, join_dot ex_contract ex_spender2]"
    by code_simp
  have ne: "validApprovals ?m \<noteq> []" unfolding v by simp
  have e2: "eachOnce 2 ?ds" by (auto simp: eachOnce_def)
  have e: "eachOnce (length (validApprovals ?m)) ?ds"
    unfolding v using e2 by (simp add: numeral_2_eq_2)
  have g1: "obj_get ?m (join_dot ex_contract ex_spender2)
            = Some \<lparr>amount = ''100'', allowance = None, allowanceError = None\<rparr>" by code_simp
  have g0: "obj_get ?m (join_dot ex_contract ex_spender)
            = Some \<lparr>amount = ''100'', allowance = None, allowanceError = None\<rparr>" by code_simp
  from C5_allowance_fault_isolation [OF r ne e, of 100]
  obtain finalMap where ret: "getApprovals ex_owner 100 [ex_log_first, ex_log_other_spender, ex_log_zero_spender] ?ds
             = Returned \<lparr>owner = ex_owner, approvals = map toApproval finalMap\<rparr>"
    and each: "\<forall>d\<in>set ?ds.
              \<exists>amt. obj_get ?m (validApprovals ?m ! fst d)
                      = Some \<lparr>amount = amt, allowance = None, allowanceError = None\<rparr>
                  \<and> obj_get finalMap (validApprovals ?m ! fst d)
                      = Some (case snd d of
                                Inl error \<Rightarrow> \<lparr>amount = amt, allowance = None, allowanceError = Some True\<rparr>
                              | Inr result \<Rightarrow> \<lparr>amount = amt, allowance = Some result, allowanceError = None\<rparr>)"
    by blast
  from each have a: "\<exists>amt. obj_get ?m (validApprovals ?m ! 1)
                      = Some \<lparr>amount = amt, allowance = None, allowanceError = None\<rparr>
                  \<and> obj_get finalMap (validApprovals ?m ! 1)
                      = Some \<lparr>amount = amt, allowance = None, allowanceError = Some True\<rparr>"
    by simp
  from each have b: "\<exists>amt. obj_get ?m (validApprovals ?m ! 0)
                      = Some \<lparr>amount = amt, allowance = None, allowanceError = None\<rparr>
                  \<and> obj_get finalMap (validApprovals ?m ! 0)
                      = Some \<lparr>amount = amt, allowance = Some ''100'', allowanceError = None\<rparr>"
    by simp
  have f1: "obj_get finalMap (join_dot ex_contract ex_spender2)
             = Some \<lparr>amount = ''100'', allowance = None, allowanceError = Some True\<rparr>"
    using a g1 unfolding v by simp
  have f0: "obj_get finalMap (join_dot ex_contract ex_spender)
             = Some \<lparr>amount = ''100'', allowance = Some ''100'', allowanceError = None\<rparr>"
    using b g0 unfolding v by simp
  from r v e2 ret f1 f0 show ?thesis by blast
qed

section \<open>The decimals pass and the exchange-rate request\<close>

lemma tokenAddressesOf_distinct: "distinct (tokenAddressesOf as)"
  by (simp add: tokenAddressesOf_def)

lemma tokenAddressesOf_set: "set (tokenAddressesOf as) = contract ` set as"
  by (simp add: tokenAddressesOf_def)

lemma addRequests_decimals:
  "addRequests (decimalsRequest pinnedBlock) items
   = Inr (map (\<lambda>t. DecimalsCall t (AtBlock pinnedBlock)) items)"
  by (induction items) (simp_all add: decimalsRequest_def)

lemma decimalsHandler_apply:
  "decimalsHandler item resp s = s(item \<mapsto> (case resp of Inl error \<Rightarrow> ''18'' | Inr result \<Rightarrow> result))"
  by (simp add: decimalsHandler_def)

lemma addRequests_nth:
  assumes "addRequests getRequest items = Inr qs"
  shows "length qs = length items \<and> (\<forall>i<length items. getRequest (items ! i) = Inr (qs ! i))"
  using assms
proof (induction items arbitrary: qs)
  case Nil
  then show ?case by simp
next
  case (Cons item items)
  obtain q where q: "getRequest item = Inr q"
    using Cons.prems by (cases "getRequest item") auto
  obtain qs' where qs': "addRequests getRequest items = Inr qs'" and qs: "qs = q # qs'"
    using Cons.prems q by (cases "addRequests getRequest items") auto
  from Cons.IH [OF qs'] have ih: "length qs' = length items"
    "\<forall>i<length items. getRequest (items ! i) = Inr (qs' ! i)" by auto
  have "getRequest ((item # items) ! i) = Inr (qs ! i)" if "i < length (item # items)" for i
    using that q qs ih(2) by (cases i) auto
  then show ?case using qs ih(1) by simp
qed

lemma makeBatch_executed_requests:
  assumes "executed (makeBatchRequestPromise items getRequest h ds s0)"
  shows "addRequests getRequest items
         = Inr (requests (makeBatchRequestPromise items getRequest h ds s0))"
proof (cases "addRequests getRequest items")
  case (Inl e)
  then show ?thesis using assms by (simp add: makeBatchRequestPromise_def)
next
  case (Inr qs)
  then show ?thesis by (simp add: makeBatchRequestPromise_def deliver_requests)
qed

lemma new_BN_18: "new_BN ''18'' = Inr 18"
  by (simp add: new_BN_def digitValue_def)

text \<open>
  Claim C7. When the client calls every callback of the decimals batch exactly once and
  the call for the token at position \<open>i\<close> fails, the decimals pass completes,
  \<open>decimalsMap\<close> holds \<open>'18'\<close> for that token, the request that the exchange-rate pass
  builds for it is \<open>getAmountsOut(10^18, [token, WETH])\<close>, and so is the request at that
  position of the executed exchange-rate batch.
\<close>

theorem C7_decimals_fallback_reaches_rate_request:
  assumes "eachOnce (length (tokenAddressesOf as)) decimalsResponses"
    and "(i, Inl error) \<in> set decimalsResponses"
  shows "promise (decimalsPass pinnedBlock (tokenAddressesOf as) decimalsResponses) = Resolved
       \<and> store (decimalsPass pinnedBlock (tokenAddressesOf as) decimalsResponses)
            (tokenAddressesOf as ! i) = Some ''18''
       \<and> rateRequest pinnedBlock
            (store (decimalsPass pinnedBlock (tokenAddressesOf as) decimalsResponses))
            (tokenAddressesOf as ! i)
          = Inr (GetAmountsOutCall (10 ^ 18) [tokenAddressesOf as ! i, WellKnownTokens_WETH]
                   (if pinnedBlock = 0 then Latest else AtBlock pinnedBlock))
       \<and> (executed (ratesPass pinnedBlock (tokenAddressesOf as)
                      (store (decimalsPass pinnedBlock (tokenAddressesOf as) decimalsResponses))
                      rateResponses)
            \<longrightarrow> requests (ratesPass pinnedBlock (tokenAddressesOf as)
                      (store (decimalsPass pinnedBlock (tokenAddressesOf as) decimalsResponses))
                      rateResponses) ! i
                = GetAmountsOutCall (10 ^ 18) [tokenAddressesOf as ! i, WellKnownTokens_WETH]
                   (if pinnedBlock = 0 then Latest else AtBlock pinnedBlock))"
proof -
  let ?toks = "tokenAddressesOf as"
  let ?dp = "decimalsPass pinnedBlock ?toks decimalsResponses"
  let ?q = "GetAmountsOutCall (10 ^ 18) [?toks ! i, WellKnownTokens_WETH]
                   (if pinnedBlock = 0 then Latest else AtBlock pinnedBlock)"
  have i: "i < length ?toks" by (rule eachOnce_bound [OF assms])
  then have ne: "?toks \<noteq> []" by auto
  note br = batch_resolves [OF assms(1) ne addRequests_decimals [of pinnedBlock ?toks],
      of decimalsHandler Map.empty]
  have p: "promise ?dp = Resolved" using br by (simp add: decimalsPass_def)
  have st: "store ?dp = handled decimalsHandler ?toks decimalsResponses Map.empty"
    using br by (simp add: decimalsPass_def)
  have dd: "distinct (map fst decimalsResponses)" using assms(1) by (simp add: eachOnce_def)
  have bd: "\<forall>d\<in>set decimalsResponses. fst d < length ?toks"
    using eachOnce_bound [OF assms(1)] by auto
  have ds: "distinct (map (\<lambda>t. t) ?toks)" using tokenAddressesOf_distinct by simp
  have "handled decimalsHandler ?toks decimalsResponses Map.empty ((\<lambda>t. t) (?toks ! i))
        = Some (case (Inl error :: string response) of Inl error \<Rightarrow> ''18'' | Inr result \<Rightarrow> result)"
    by (rule handled_update_unique [of decimalsHandler "\<lambda>t. t", OF decimalsHandler_apply dd bd ds assms(2)])
  then have m: "store ?dp (?toks ! i) = Some ''18''" unfolding st by simp
  have bound: "(10 :: nat) ^ 18 < 2 ^ 256" by simp
  have rq: "rateRequest pinnedBlock (store ?dp) (?toks ! i) = Inr ?q"
    using bound by (simp add: rateRequest_def m getTokenWeiExchangeRateRequest_def new_BN_18)
  have ex: "requests (ratesPass pinnedBlock ?toks (store ?dp) rateResponses) ! i = ?q"
    if e: "executed (ratesPass pinnedBlock ?toks (store ?dp) rateResponses)"
  proof -
    from makeBatch_executed_requests [OF e [unfolded ratesPass_def]]
    have "addRequests (rateRequest pinnedBlock (store ?dp)) ?toks
          = Inr (requests (ratesPass pinnedBlock ?toks (store ?dp) rateResponses))"
      by (simp add: ratesPass_def)
    from addRequests_nth [OF this] i
    have "rateRequest pinnedBlock (store ?dp) (?toks ! i)
          = Inr (requests (ratesPass pinnedBlock ?toks (store ?dp) rateResponses) ! i)"
      by blast
    with rq show ?thesis by simp
  qed
  from p m rq ex show ?thesis by blast
qed

theorem C7_scenario_witness:
  "eachOnce (length (tokenAddressesOf [ex_approval, ex_approval2]))
      ([(0, Inl (RpcError ''execution reverted''))] :: (nat \<times> string response) list)
   \<and> tokenAddressesOf [ex_approval, ex_approval2] = [ex_contract]
   \<and> store (decimalsPass 100 (tokenAddressesOf [ex_approval, ex_approval2])
               [(0, Inl (RpcError ''execution reverted''))]) ex_contract = Some ''18''
   \<and> executed (ratesPass 100 (tokenAddressesOf [ex_approval, ex_approval2])
        (store (decimalsPass 100 (tokenAddressesOf [ex_approval, ex_approval2])
                  [(0, Inl (RpcError ''execution reverted''))]))
        [(0, Inr [''1000000000000000000'', ''5''])])
   \<and> requests (ratesPass 100 (tokenAddressesOf [ex_approval, ex_approval2])
        (store (decimalsPass 100 (tokenAddressesOf [ex_approval, ex_approval2])
                  [(0, Inl (RpcError ''execution reverted''))]))
        [(0, Inr [''1000000000000000000'', ''5''])]) ! 0
     = GetAmountsOutCall (10 ^ 18) [ex_contract, WellKnownTokens_WETH] (AtBlock 100)"
proof -
  let ?as = "[ex_approval, ex_approval2]"
  let ?ds = "[(0, Inl (RpcError ''execution reverted''))] :: (nat \<times> string response) list"
  let ?rs = "[(0, Inr [''1000000000000000000'', ''5''])] :: (nat \<times> string list response) list"
  have t: "tokenAddressesOf ?as = [ex_contract]" by code_simp
  have e: "eachOnce (length (tokenAddressesOf ?as)) ?ds" unfolding t by (auto simp: eachOnce_def)
  have mem: "(0, Inl (RpcError ''execution reverted'')) \<in> set ?ds" by simp
  note c = C7_decimals_fallback_reaches_rate_request [OF e mem, of 100 ?rs]
  have s: "store (decimalsPass 100 (tokenAddressesOf ?as) ?ds) ex_contract = Some ''18''"
    using c unfolding t by simp
  have rq: "rateRequest 100 (store (decimalsPass 100 [ex_contract] ?ds)) ex_contract
            = Inr (GetAmountsOutCall (10 ^ 18) [ex_contract, WellKnownTokens_WETH] (AtBlock 100))"
    using c unfolding t by simp
  have x: "executed (ratesPass 100 (tokenAddressesOf ?as) (store (decimalsPass 100 (tokenAddressesOf ?as) ?ds)) ?rs)"
    unfolding t ratesPass_def makeBatchRequestPromise_def
    by (simp add: rq deliver_executed del: deliver.simps)
  have q: "requests (ratesPass 100 (tokenAddressesOf ?as) (store (decimalsPass 100 (tokenAddressesOf ?as) ?ds)) ?rs) ! 0
     = GetAmountsOutCall (10 ^ 18) [ex_contract, WellKnownTokens_WETH] (AtBlock 100)"
    using c x unfolding t by simp
  show ?thesis by (intro conjI) (rule e t s x q)+
qed

section \<open>The balance pass and the risk score\<close>

lemma balanceHandler_apply:
  "balanceHandler item resp s
   = s(contract item \<mapsto> (case resp of Inl error \<Rightarrow> JNum (Finite 0) | Inr result \<Rightarrow> result))"
  by (simp add: balanceHandler_def)

lemma rateHandler_apply: "rateHandler item resp s = s(item \<mapsto> quotedRate resp)"
  by (simp add: rateHandler_def)

lemma addRequests_balance:
  "addRequests (balanceRequest owner_address pinnedBlock) items
   = Inr (map (\<lambda>a. BalanceOfCall (contract a) owner_address (AtBlock pinnedBlock)) items)"
  by (induction items) (simp_all add: balanceRequest_def)

lemma BN_min_zero: "BN_min n (JBN 0) = JBN 0"
  by simp

lemma balanceOrZero_failed:
  assumes "balances c = Some (JNum (Finite 0))"
  shows "balanceOrZero balances c = JBN 0"
  using assms by (simp add: balanceOrZero_def)

lemma roundDouble_zero: "roundDouble 0 = Finite 0"
  by (simp add: roundDouble_def)

lemma js_mul_zero_right: "js_mul x (Finite 0) = (if isFinite x then Finite 0 else NaN)"
  by (cases x) (simp_all add: roundDouble_zero)

lemma js_mul_zero_left: "js_mul (Finite 0) y = (if isFinite y then Finite 0 else NaN)"
  by (cases y) (simp_all add: roundDouble_zero)

lemma js_mul_NaN_left: "js_mul NaN y = NaN"
  by (cases y) simp_all

lemma severity_zero:
  assumes "exchangeRates c = Some r"
  shows "severity exchangeRates c (JBN 0) = (if isFinite r then Finite 0 else NaN)"
  using assms by (simp add: severity_def roundDouble_zero js_mul_zero_right)

lemma getRiskScore_zero:
  assumes "balances (contract b) = Some (JNum (Finite 0))"
    and "exchangeRates (contract b) = Some r"
    and "new_BN (amount b) = Inr n"
  shows "getRiskScore reputations [] exchangeRates balances b
         = Inr (if isFinite r \<and> isFinite (likelihood reputations [] (Some (contract b)) (spender b))
                then Finite 0 else NaN)"
proof -
  have a: "amountAtRisk balances b = Inr (JBN 0)"
    using assms(1,3) by (simp add: amountAtRisk_def balanceOrZero_failed)
  show ?thesis
    using a severity_zero [of exchangeRates "contract b" r, OF assms(2)]
    by (simp add: getRiskScore_def js_mul_zero_left js_mul_NaN_left)
qed

lemma scoreAll_total:
  assumes "\<forall>b\<in>set bs. \<exists>n. new_BN (amount b) = Inr n"
  shows "\<exists>scored. scoreAll R V E B bs = Inr scored
           \<and> list_all2 (\<lambda>s b. contract s = contract b \<and> spender s = spender b
                              \<and> amount s = amount b
                              \<and> getRiskScore R V E B b = Inr (risk s)
                              \<and> balance s = B (contract b)) scored bs"
  using assms
proof (induction bs)
  case Nil
  then show ?case by simp
next
  case (Cons b bs)
  obtain n where n: "new_BN (amount b) = Inr n" using Cons.prems by auto
  then obtain r where r: "getRiskScore R V E B b = Inr r"
    by (simp add: getRiskScore_def amountAtRisk_def)
  obtain scored where s: "scoreAll R V E B bs = Inr scored"
    and l: "list_all2 (\<lambda>s b. contract s = contract b \<and> spender s = spender b
                              \<and> amount s = amount b
                              \<and> getRiskScore R V E B b = Inr (risk s)
                              \<and> balance s = B (contract b)) scored bs"
    using Cons by auto
  show ?case using r s l by simp
qed

text \<open>
  Claim C8, as the code has it. Take a report with an approval \<open>a\<close>, a client that calls
  every callback of the three batches exactly once, no Etherscan key, approved amounts
  that are decimal strings, and decimals answers \<open>d\<close> that are decimal strings with
  \<open>10^d < 2^256\<close>. If every \<open>balanceOf\<close> call on the contract of \<open>a\<close> fails, then the
  amount at risk of \<open>a\<close> is 0 and \<open>addApprovalRiskScore\<close> returns; every approval on that
  contract is reported with \<open>balance = 0\<close>, whatever its approved amount, and its risk is
  \<open>rate * 0 * likelihood\<close>: 0 when the rate quoted for the contract and the likelihood
  (the product of the two reputations) are finite, NaN otherwise.
\<close>

theorem C8_failed_balance_scores_zero:
  assumes bal: "eachOnce (length (approvals rep)) balanceResponses"
    and dec: "eachOnce (length (tokenAddressesOf (approvals rep))) decimalsResponses"
    and rat: "eachOnce (length (tokenAddressesOf (approvals rep))) rateResponses"
    and key: "etherscanApiKey = None \<or> etherscanApiKey = Some []"
    and amounts: "\<forall>b\<in>set (approvals rep). \<exists>n. new_BN (amount b) = Inr n"
    and decimals: "\<forall>d\<in>set decimalsResponses. \<forall>s. snd d = Inr s
                 \<longrightarrow> (\<exists>n. new_BN s = Inr n \<and> (10 :: nat) ^ n < 2 ^ 256)"
    and a: "a \<in> set (approvals rep)"
    and fails: "\<forall>d\<in>set balanceResponses. contract (approvals rep ! fst d) = contract a
                 \<longrightarrow> isl (snd d)"
  shows "amountAtRisk (store (balancePass (owner rep) pinnedBlock (approvals rep) balanceResponses)) a
           = Inr (JBN 0)
       \<and> (\<exists>scored.
             addApprovalRiskScore rep pinnedBlock reputationsOpt etherscanApiKey
                 balanceResponses decimalsResponses rateResponses
               = Returned \<lparr>owner = owner rep, approvals = scored\<rparr>
           \<and> list_all2 (\<lambda>s b. contract s = contract b \<and> spender s = spender b
                              \<and> amount s = amount b) scored (approvals rep)
           \<and> (\<exists>d\<in>set rateResponses.
                 tokenAddressesOf (approvals rep) ! fst d = contract a
               \<and> (\<forall>s\<in>set scored. contract s = contract a
                     \<longrightarrow> balance s = Some (JNum (Finite 0))
                       \<and> risk s =
                           (if isFinite (quotedRate (snd d))
                               \<and> isFinite (likelihood
                                    (case reputationsOpt of None \<Rightarrow> Map.empty | Some r \<Rightarrow> r) []
                                    (Some (contract s)) (spender s))
                            then Finite 0 else NaN))))"
proof -
  let ?as = "approvals rep"
  let ?toks = "tokenAddressesOf ?as"
  let ?R = "case reputationsOpt of None \<Rightarrow> Map.empty | Some r \<Rightarrow> r"
  let ?B = "handled balanceHandler ?as balanceResponses Map.empty"
  let ?D = "handled decimalsHandler ?toks decimalsResponses Map.empty"
  let ?E = "handled rateHandler ?toks rateResponses Map.empty"
  have ne: "?as \<noteq> []" using a by auto
  have ct: "contract a \<in> set ?toks" using a by (simp add: tokenAddressesOf_set)
  then have tne: "?toks \<noteq> []" by auto
  \<comment> \<open>the balance pass\<close>
  note b1 = batch_resolves [OF bal ne addRequests_balance [of "owner rep" pinnedBlock ?as],
      of balanceHandler Map.empty]
  have bp: "promise (balancePass (owner rep) pinnedBlock ?as balanceResponses) = Resolved"
    and bs: "store (balancePass (owner rep) pinnedBlock ?as balanceResponses) = ?B"
    using b1 by (simp_all add: balancePass_def)
  obtain j where j: "j < length ?as" "?as ! j = a" using a by (auto simp: in_set_conv_nth)
  obtain rj where rj: "(j, rj) \<in> set balanceResponses" using eachOnce_covers [OF bal j(1)] by blast
  have Bc: "?B (contract a) = Some (JNum (Finite 0))"
  proof (rule handled_update_same [of balanceHandler contract
        "\<lambda>resp. case resp of Inl error \<Rightarrow> JNum (Finite 0) | Inr result \<Rightarrow> result"])
    show "balanceHandler item resp s
          = s(contract item \<mapsto> (case resp of Inl error \<Rightarrow> JNum (Finite 0) | Inr result \<Rightarrow> result))"
      for item resp s by (rule balanceHandler_apply)
    show "\<forall>d\<in>set balanceResponses. fst d < length ?as \<longrightarrow> contract (?as ! fst d) = contract a
            \<longrightarrow> (case snd d of Inl error \<Rightarrow> JNum (Finite 0) | Inr result \<Rightarrow> result) = JNum (Finite 0)"
      using fails by (auto split: sum.splits)
    show "Map.empty (contract a) = Some (JNum (Finite 0))
          \<or> (\<exists>d\<in>set balanceResponses. fst d < length ?as \<and> contract (?as ! fst d) = contract a)"
      using rj j by force
  qed
  obtain na where na: "new_BN (amount a) = Inr na" using amounts a by blast
  have risk_a: "amountAtRisk ?B a = Inr (JBN 0)"
    using na Bc by (simp add: amountAtRisk_def balanceOrZero_failed)
  \<comment> \<open>the decimals pass\<close>
  note d1 = batch_resolves [OF dec tne addRequests_decimals [of pinnedBlock ?toks],
      of decimalsHandler Map.empty]
  have dp: "promise (decimalsPass pinnedBlock ?toks decimalsResponses) = Resolved"
    and dst: "store (decimalsPass pinnedBlock ?toks decimalsResponses) = ?D"
    using d1 by (simp_all add: decimalsPass_def)
  have dd: "distinct (map fst decimalsResponses)" using dec by (simp add: eachOnce_def)
  have dbd: "\<forall>d\<in>set decimalsResponses. fst d < length ?toks"
    using eachOnce_bound [OF dec] by auto
  have dt: "distinct (map (\<lambda>t. t) ?toks)" using tokenAddressesOf_distinct by simp
  have rq_ok: "\<exists>q. rateRequest pinnedBlock ?D t = Inr q" if t: "t \<in> set ?toks" for t
  proof -
    obtain i where i: "i < length ?toks" "?toks ! i = t" using t by (auto simp: in_set_conv_nth)
    obtain resp where resp: "(i, resp) \<in> set decimalsResponses"
      using eachOnce_covers [OF dec i(1)] by blast
    have "?D ((\<lambda>t. t) (?toks ! i))
          = Some (case resp of Inl error \<Rightarrow> ''18'' | Inr result \<Rightarrow> result)"
      by (rule handled_update_unique [of decimalsHandler "\<lambda>t. t", OF decimalsHandler_apply dd dbd dt resp])
    then have Dt: "?D t = Some (case resp of Inl error \<Rightarrow> ''18'' | Inr result \<Rightarrow> result)"
      using i by simp
    have "\<exists>n. new_BN (case resp of Inl error \<Rightarrow> ''18'' | Inr result \<Rightarrow> result) = Inr n
              \<and> (10 :: nat) ^ n < 2 ^ 256"
    proof (cases resp)
      case (Inl e)
      have "(10 :: nat) ^ 18 < 2 ^ 256" by simp
      then show ?thesis using Inl by (simp add: new_BN_18)
    next
      case (Inr s)
      then show ?thesis using decimals resp by force
    qed
    then obtain n where "new_BN (case resp of Inl error \<Rightarrow> ''18'' | Inr result \<Rightarrow> result) = Inr n"
      and "(10 :: nat) ^ n < 2 ^ 256" by blast
    then show ?thesis
      by (simp add: rateRequest_def Dt getTokenWeiExchangeRateRequest_def)
  qed
  then have "\<forall>t\<in>set ?toks. \<exists>q. rateRequest pinnedBlock ?D t = Inr q" by blast
  from addRequests_total [OF this]
  obtain qs where qs: "addRequests (rateRequest pinnedBlock ?D) ?toks = Inr qs" by blast
  \<comment> \<open>the exchange-rate pass\<close>
  note r1 = batch_resolves [OF rat tne qs, of rateHandler Map.empty]
  have rp: "promise (ratesPass pinnedBlock ?toks ?D rateResponses) = Resolved"
    and rst: "store (ratesPass pinnedBlock ?toks ?D rateResponses) = ?E"
    using r1 by (simp_all add: ratesPass_def)
  have rd: "distinct (map fst rateResponses)" using rat by (simp add: eachOnce_def)
  have rbd: "\<forall>d\<in>set rateResponses. fst d < length ?toks"
    using eachOnce_bound [OF rat] by auto
  obtain i where i: "i < length ?toks" "?toks ! i = contract a"
    using ct by (auto simp: in_set_conv_nth)
  obtain ri where ri: "(i, ri) \<in> set rateResponses" using eachOnce_covers [OF rat i(1)] by blast
  have "?E ((\<lambda>t. t) (?toks ! i)) = Some (quotedRate ri)"
    by (rule handled_update_unique [of rateHandler "\<lambda>t. t", OF rateHandler_apply rd rbd dt ri])
  then have Ec: "?E (contract a) = Some (quotedRate ri)" using i by simp
  \<comment> \<open>the scores\<close>
  from scoreAll_total [OF amounts, of ?R "[]" ?E ?B]
  obtain scored where sc: "scoreAll ?R [] ?E ?B ?as = Inr scored"
    and l2: "list_all2 (\<lambda>s b. contract s = contract b \<and> spender s = spender b
                              \<and> amount s = amount b
                              \<and> getRiskScore ?R [] ?E ?B b = Inr (risk s)
                              \<and> balance s = ?B (contract b)) scored ?as"
    by blast
  have ret: "addApprovalRiskScore rep pinnedBlock reputationsOpt etherscanApiKey
                 balanceResponses decimalsResponses rateResponses
               = Returned \<lparr>owner = owner rep, approvals = scored\<rparr>"
    using key bp bs dp dst rp rst sc
    by (auto simp: addApprovalRiskScore_def await_batch_def Let_def)
  have shape: "list_all2 (\<lambda>s b. contract s = contract b \<and> spender s = spender b
                              \<and> amount s = amount b) scored ?as"
    using l2 by (rule list_all2_mono) simp
  have zero: "balance s = Some (JNum (Finite 0))
              \<and> risk s = (if isFinite (quotedRate ri)
                               \<and> isFinite (likelihood ?R [] (Some (contract s)) (spender s))
                           then Finite 0 else NaN)"
    if s: "s \<in> set scored" and c: "contract s = contract a" for s
  proof -
    obtain k where k: "k < length scored" "scored ! k = s" using s by (auto simp: in_set_conv_nth)
    let ?b = "?as ! k"
    have lk: "k < length ?as" using k(1) l2 by (simp add: list_all2_lengthD)
    have p: "contract s = contract ?b" "spender s = spender ?b"
      "getRiskScore ?R [] ?E ?B ?b = Inr (risk s)" "balance s = ?B (contract ?b)"
      using list_all2_nthD [OF l2 k(1)] k(2) by auto
    have cb: "contract ?b = contract a" using p(1) c by simp
    obtain n where n: "new_BN (amount ?b) = Inr n" using amounts lk by (meson nth_mem)
    have "getRiskScore ?R [] ?E ?B ?b
          = Inr (if isFinite (quotedRate ri)
                    \<and> isFinite (likelihood ?R [] (Some (contract ?b)) (spender ?b))
                 then Finite 0 else NaN)"
      by (rule getRiskScore_zero [OF _ _ n]) (simp_all add: cb Bc Ec)
    then show ?thesis using p cb Bc by simp
  qed
  have rates: "\<exists>d\<in>set rateResponses.
                 ?toks ! fst d = contract a
               \<and> (\<forall>s\<in>set scored. contract s = contract a
                     \<longrightarrow> balance s = Some (JNum (Finite 0))
                       \<and> risk s = (if isFinite (quotedRate (snd d))
                                       \<and> isFinite (likelihood ?R [] (Some (contract s)) (spender s))
                                   then Finite 0 else NaN))"
    by (rule bexI [of _ "(i, ri)"]) (use ri i zero in simp_all)
  show ?thesis
    unfolding bs
    apply (rule conjI)
     apply (rule risk_a)
    apply (rule exI [of _ scored])
    using ret shape rates by blast
qed

text \<open>
  The claim as stated fails: with the reputation of the spender set to Infinity (the
  docstring's value for a whitelisted address) and a failed balance call, the report shows
  \<open>balance = 0\<close> and an amount at risk of 0, but the risk is \<open>0 * Infinity\<close>, which is
  NaN.
\<close>

theorem C8_infinite_reputation_gives_NaN:
  "amountAtRisk (store (balancePass (owner ex_report) 100 (approvals ex_report)
                          [(0, Inl (RpcError ''execution reverted''))])) ex_approval
     = Inr (JBN 0)
   \<and> addApprovalRiskScore ex_report 100 (Some [ex_spender \<mapsto> PosInfinity]) None
        [(0, Inl (RpcError ''execution reverted''))] [(0, Inr ''2'')] [(0, Inr [''100'', ''200''])]
     = Returned \<lparr>owner = ex_owner,
         approvals =
           [\<lparr>amount = ''50'', allowance = Some ''50'', allowanceError = None,
             contract = ex_contract, spender = Some ex_spender,
             risk = NaN, balance = Some (JNum (Finite 0))\<rparr>]\<rparr>"
  by code_simp

theorem C8_scenario_witness:
  "eachOnce (length (approvals ex_report)) [(0 :: nat, Inl (RpcError ''execution reverted'') :: jsval response)]
   \<and> eachOnce (length (tokenAddressesOf (approvals ex_report))) [(0 :: nat, Inr ''2'' :: string response)]
   \<and> quotedRate (Inr [''100'', ''200'']) = Finite 2
   \<and> likelihood Map.empty [] (Some ex_contract) (Some ex_spender) = Finite 1
   \<and> new_BN (amount ex_approval) = Inr 50
   \<and> new_BN ''2'' = Inr 2
   \<and> amountAtRisk (store (balancePass (owner ex_report) 100 (approvals ex_report)
                             [(0, Inl (RpcError ''execution reverted''))])) ex_approval
       = Inr (JBN 0)
   \<and> addApprovalRiskScore ex_report 100 None None
        [(0, Inl (RpcError ''execution reverted''))] [(0, Inr ''2'')] [(0, Inr [''100'', ''200''])]
       = Returned \<lparr>owner = ex_owner,
           approvals =
             [\<lparr>amount = ''50'', allowance = Some ''50'', allowanceError = None,
               contract = ex_contract, spender = Some ex_spender,
               risk = Finite 0, balance = Some (JNum (Finite 0))\<rparr>]\<rparr>"
proof -
  let ?bs = "[(0, Inl (RpcError ''execution reverted''))] :: (nat \<times> jsval response) list"
  let ?ds = "[(0, Inr ''2'')] :: (nat \<times> string response) list"
  let ?rs = "[(0, Inr [''100'', ''200''])] :: (nat \<times> string list response) list"
  have as: "approvals ex_report = [ex_approval]" by (simp add: ex_report_def)
  have ow: "owner ex_report = ex_owner" by (simp add: ex_report_def)
  have t: "tokenAddressesOf (approvals ex_report) = [ex_contract]" by code_simp
  have e1: "eachOnce (length (approvals ex_report)) ?bs" unfolding as by (auto simp: eachOnce_def)
  have e2: "eachOnce (length (tokenAddressesOf (approvals ex_report))) ?ds"
    unfolding t by (auto simp: eachOnce_def)
  have e3: "eachOnce (length (tokenAddressesOf (approvals ex_report))) ?rs"
    unfolding t by (auto simp: eachOnce_def)
  have q: "quotedRate (Inr [''100'', ''200'']) = Finite 2" by code_simp
  have lk: "likelihood Map.empty [] (Some ex_contract) (Some ex_spender) = Finite 1" by code_simp
  have n: "new_BN (amount ex_approval) = Inr 50" by code_simp
  have n2: "new_BN ''2'' = Inr 2" by code_simp
  have key: "(None :: string option) = None \<or> (None :: string option) = Some []" by simp
  have amounts: "\<forall>b\<in>set (approvals ex_report). \<exists>n. new_BN (amount b) = Inr n"
    unfolding as using n by simp
  have decimals: "\<forall>d\<in>set ?ds. \<forall>s. snd d = Inr s
                    \<longrightarrow> (\<exists>n. new_BN s = Inr n \<and> (10 :: nat) ^ n < 2 ^ 256)"
    using n2 by simp
  have a: "ex_approval \<in> set (approvals ex_report)" unfolding as by simp
  have fails: "\<forall>d\<in>set ?bs. contract (approvals ex_report ! fst d) = contract ex_approval
                 \<longrightarrow> isl (snd d)" by simp
  note c = C8_failed_balance_scores_zero [OF e1 e2 e3 key amounts decimals a fails,
      of 100 "None :: (string \<rightharpoonup> jsnum) option"]
  have r: "amountAtRisk (store (balancePass (owner ex_report) 100 (approvals ex_report) ?bs)) ex_approval
       = Inr (JBN 0)" by (rule c [THEN conjunct1])
  obtain scored where ret: "addApprovalRiskScore ex_report 100 None None ?bs ?ds ?rs
               = Returned \<lparr>owner = owner ex_report, approvals = scored\<rparr>"
    and shape: "list_all2 (\<lambda>s b. contract s = contract b \<and> spender s = spender b
                              \<and> amount s = amount b) scored (approvals ex_report)"
    and rates: "\<exists>d\<in>set ?rs.
                 tokenAddressesOf (approvals ex_report) ! fst d = contract ex_approval
               \<and> (\<forall>s\<in>set scored. contract s = contract ex_approval
                     \<longrightarrow> balance s = Some (JNum (Finite 0))
                       \<and> risk s = (if isFinite (quotedRate (snd d))
                                       \<and> isFinite (likelihood
                                            (case (None :: (string \<rightharpoonup> jsnum) option) of
                                               None \<Rightarrow> Map.empty | Some r \<Rightarrow> r) []
                                            (Some (contract s)) (spender s))
                                   then Finite 0 else NaN))"
    using c [THEN conjunct2] by blast
  obtain s where sc: "scored = [s]" and s1: "contract s = contract ex_approval"
    and s2: "spender s = spender ex_approval" and s3: "amount s = amount ex_approval"
    using shape unfolding as by (auto simp: list_all2_Cons2)
  have cs: "contract ex_approval = ex_contract" "spender ex_approval = Some ex_spender"
    by (simp_all add: ex_approval_def)
  have z: "balance s = Some (JNum (Finite 0)) \<and> risk s = Finite 0"
    using rates sc s1 s2 cs q lk by simp
  have v: "addApprovalRiskScore ex_report 100 None None ?bs ?ds ?rs
       = Returned \<lparr>owner = ex_owner,
           approvals =
             [\<lparr>amount = ''50'', allowance = Some ''50'', allowanceError = None,
               contract = ex_contract, spender = Some ex_spender,
               risk = Finite 0, balance = Some (JNum (Finite 0))\<rparr>]\<rparr>"
    by code_simp
  show ?thesis by (intro conjI) (rule e1 e2 q lk n n2 r v)+
qed

section \<open>The slots the handlers assign\<close>

lemma handled_append:
  "handled h items (ds @ es) s = handled h items es (handled h items ds s)"
proof (induction ds arbitrary: s)
  case Nil
  then show ?case by simp
next
  case (Cons d ds)
  obtain i resp where d: "d = (i, resp)" by (cases d)
  show ?case unfolding d by (simp add: Cons.IH)
qed

lemma reconstruct_valid_distinct:
  assumes "reconstruct owner_address pastLogs = Inr approvalMap"
  shows "distinct (map allowanceSlot (validApprovals approvalMap))"
proof -
  have "distinct (validApprovals approvalMap)"
    using reconstruct_distinct [OF assms] by (simp add: validApprovals_def)
  moreover have "map allowanceSlot (validApprovals approvalMap) = validApprovals approvalMap"
    by (induction "validApprovals approvalMap") (simp_all add: allowanceSlot_def map_idI)
  ultimately show ?thesis by simp
qed

text \<open>
  Claim C9, as the code has it. In the allowance, decimals and exchange-rate passes the
  handler assigns the slot named by its item and no other, and the items of a pass name
  pairwise different slots: the keys of the reconstructed map, and the token addresses
  without repetition. In the balance pass the handler of an approval assigns
  \<open>balances[approval.contract]\<close> and no other slot, so two approvals assign the same slot
  exactly when they have the same contract, and the slot holds what the last callback
  called for that contract wrote.
\<close>

theorem C9_slots_of_the_four_passes:
  "(reconstruct owner_address pastLogs = Inr approvalMap
      \<longrightarrow> distinct (map allowanceSlot (validApprovals approvalMap)))
   \<and> distinct (map tokenSlot (tokenAddressesOf as))
   \<and> (\<forall>k. k \<noteq> allowanceSlot key \<longrightarrow> obj_get (allowanceHandler key r1 m) k = obj_get m k)
   \<and> (\<forall>k. k \<noteq> tokenSlot t \<longrightarrow> decimalsHandler t r2 dm k = dm k)
   \<and> decimalsHandler t r2 dm (tokenSlot t) \<noteq> None
   \<and> (\<forall>k. k \<noteq> tokenSlot t \<longrightarrow> rateHandler t r3 em k = em k)
   \<and> rateHandler t r3 em (tokenSlot t) \<noteq> None
   \<and> (\<forall>k. k \<noteq> balanceSlot a \<longrightarrow> balanceHandler a r4 bm k = bm k)
   \<and> balanceHandler a r4 bm (balanceSlot a) \<noteq> None
   \<and> (\<forall>i<length as. \<forall>j<length as.
         balanceSlot (as ! i) = balanceSlot (as ! j) \<longleftrightarrow> contract (as ! i) = contract (as ! j))
   \<and> (\<forall>i<length as.
         handled balanceHandler as (ds @ [(i, r4)]) bm (contract (as ! i))
         = Some (case r4 of Inl error \<Rightarrow> JNum (Finite 0) | Inr result \<Rightarrow> result))"
proof (intro conjI)
  show "reconstruct owner_address pastLogs = Inr approvalMap
      \<longrightarrow> distinct (map allowanceSlot (validApprovals approvalMap))"
    using reconstruct_valid_distinct by blast
  show "distinct (map tokenSlot (tokenAddressesOf as))"
  proof -
    have "map tokenSlot (tokenAddressesOf as) = tokenAddressesOf as"
      by (induction "tokenAddressesOf as") (simp_all add: tokenSlot_def map_idI)
    then show ?thesis by (simp add: tokenAddressesOf_distinct)
  qed
  show "\<forall>k. k \<noteq> allowanceSlot key \<longrightarrow> obj_get (allowanceHandler key r1 m) k = obj_get m k"
    by (simp add: allowanceSlot_def allowanceHandler_apply obj_get_def obj_modify_map_of)
  show "\<forall>k. k \<noteq> tokenSlot t \<longrightarrow> decimalsHandler t r2 dm k = dm k"
    by (simp add: tokenSlot_def decimalsHandler_apply)
  show "decimalsHandler t r2 dm (tokenSlot t) \<noteq> None"
    by (simp add: tokenSlot_def decimalsHandler_apply)
  show "\<forall>k. k \<noteq> tokenSlot t \<longrightarrow> rateHandler t r3 em k = em k"
    by (simp add: tokenSlot_def rateHandler_apply)
  show "rateHandler t r3 em (tokenSlot t) \<noteq> None"
    by (simp add: tokenSlot_def rateHandler_apply)
  show "\<forall>k. k \<noteq> balanceSlot a \<longrightarrow> balanceHandler a r4 bm k = bm k"
    by (simp add: balanceSlot_def balanceHandler_apply)
  show "balanceHandler a r4 bm (balanceSlot a) \<noteq> None"
    by (simp add: balanceSlot_def balanceHandler_apply)
  show "\<forall>i<length as. \<forall>j<length as.
         balanceSlot (as ! i) = balanceSlot (as ! j) \<longleftrightarrow> contract (as ! i) = contract (as ! j)"
    by (simp add: balanceSlot_def)
  show "\<forall>i<length as.
         handled balanceHandler as (ds @ [(i, r4)]) bm (contract (as ! i))
         = Some (case r4 of Inl error \<Rightarrow> JNum (Finite 0) | Inr result \<Rightarrow> result)"
    by (simp add: handled_append balanceHandler_apply)
qed

text \<open>
  The claim as stated fails in the balance pass: the report of the scenario holds two
  approvals of the same contract for two spenders; their handlers assign the same slot,
  and the balance that remains depends on which callback is called last.
\<close>

theorem C9_balance_slot_is_shared:
  "getApprovals ex_owner 100 [ex_log_first, ex_log_second, ex_log_other_spender]
       [(0, Inr ''50''), (1, Inr ''100'')]
     = Returned \<lparr>owner = ex_owner, approvals = [ex_approval, ex_approval2]\<rparr>
   \<and> ex_approval \<noteq> ex_approval2
   \<and> balanceSlot ex_approval = balanceSlot ex_approval2
   \<and> \<not> distinct (map balanceSlot [ex_approval, ex_approval2])
   \<and> store (balancePass ex_owner 100 [ex_approval, ex_approval2]
               [(0, Inr (JStr ''1000'')), (1, Inl (RpcError ''timeout''))]) ex_contract
       = Some (JNum (Finite 0))
   \<and> store (balancePass ex_owner 100 [ex_approval, ex_approval2]
               [(1, Inl (RpcError ''timeout'')), (0, Inr (JStr ''1000''))]) ex_contract
       = Some (JStr ''1000'')"
  by code_simp

theorem C9_scenario_witness:
  "reconstruct ex_owner [ex_log_first, ex_log_other_spender, ex_log_zero_spender]
     = Inr [(join_dot ex_contract ex_spender, \<lparr>amount = ''100'', allowance = None, allowanceError = None\<rparr>),
            (join_dot ex_contract ex_spender2, \<lparr>amount = ''100'', allowance = None, allowanceError = None\<rparr>),
            (join_dot ex_contract nullAddress, \<lparr>amount = ''7'', allowance = None, allowanceError = None\<rparr>)]
   \<and> distinct (map allowanceSlot (validApprovals
        [(join_dot ex_contract ex_spender, \<lparr>amount = ''100'', allowance = None, allowanceError = None\<rparr>),
         (join_dot ex_contract ex_spender2, \<lparr>amount = ''100'', allowance = None, allowanceError = None\<rparr>),
         (join_dot ex_contract nullAddress, \<lparr>amount = ''7'', allowance = None, allowanceError = None\<rparr>)]))
   \<and> distinct (map tokenSlot (tokenAddressesOf [ex_approval, ex_approval2]))
   \<and> ex_spender \<noteq> tokenSlot ex_contract
   \<and> decimalsHandler ex_contract (Inr ''2'') Map.empty ex_spender = None
   \<and> (0 :: nat) < length [ex_approval, ex_approval2] \<and> (1 :: nat) < length [ex_approval, ex_approval2]
   \<and> balanceSlot ([ex_approval, ex_approval2] ! 0) = balanceSlot ([ex_approval, ex_approval2] ! 1)
   \<and> handled balanceHandler [ex_approval, ex_approval2]
        ([(0, Inr (JStr ''1000''))] @ [(1, Inl (RpcError ''timeout''))]) Map.empty
        (contract ([ex_approval, ex_approval2] ! 1))
      = Some (JNum (Finite 0))"
proof -
  let ?m = "[(join_dot ex_contract ex_spender, \<lparr>amount = ''100'', allowance = None, allowanceError = None\<rparr>),
            (join_dot ex_contract ex_spender2, \<lparr>amount = ''100'', allowance = None, allowanceError = None\<rparr>),
            (join_dot ex_contract nullAddress, \<lparr>amount = ''7'', allowance = None, allowanceError = None\<rparr>)]"
  let ?as = "[ex_approval, ex_approval2]"
  note c = C9_slots_of_the_four_passes [of ex_owner
      "[ex_log_first, ex_log_other_spender, ex_log_zero_spender]" ?m ?as
      "join_dot ex_contract ex_spender" "Inr ''100''" ?m
      ex_contract "Inr ''2''" Map.empty "Inr [''100'', ''200'']" Map.empty
      ex_approval "Inl (RpcError ''timeout'')" Map.empty "[(0, Inr (JStr ''1000''))]"]
  have r: "reconstruct ex_owner [ex_log_first, ex_log_other_spender, ex_log_zero_spender] = Inr ?m"
    by code_simp
  note c1 = c [THEN conjunct1]
  note c2 = c [THEN conjunct2, THEN conjunct1]
  note c4 = c [THEN conjunct2, THEN conjunct2, THEN conjunct2, THEN conjunct1]
  note c10 = c [THEN conjunct2, THEN conjunct2, THEN conjunct2, THEN conjunct2, THEN conjunct2, THEN conjunct2, THEN conjunct2, THEN conjunct2, THEN conjunct2, THEN conjunct1]
  note c11 = c [THEN conjunct2, THEN conjunct2, THEN conjunct2, THEN conjunct2, THEN conjunct2, THEN conjunct2, THEN conjunct2, THEN conjunct2, THEN conjunct2, THEN conjunct2]
  have 1: "distinct (map allowanceSlot (validApprovals ?m))" using c1 r by (rule mp)
  have 2: "distinct (map tokenSlot (tokenAddressesOf ?as))" by (rule c2)
  have ne: "ex_spender \<noteq> tokenSlot ex_contract" by code_simp
  have 3: "decimalsHandler ex_contract (Inr ''2'') Map.empty ex_spender = None"
    using c4 [THEN spec, of ex_spender] ne by simp
  have l0: "(0 :: nat) < length ?as" and l1: "(1 :: nat) < length ?as" by simp_all
  have cc: "contract (?as ! 0) = contract (?as ! 1)" by code_simp
  have 4: "balanceSlot (?as ! 0) = balanceSlot (?as ! 1)"
    using c10 [THEN spec, of 1, THEN mp, OF l1, THEN spec, of 0, THEN mp, OF l0] cc by simp
  have 5: "handled balanceHandler ?as ([(0, Inr (JStr ''1000''))] @ [(1, Inl (RpcError ''timeout''))])
             Map.empty (contract (?as ! 1)) = Some (JNum (Finite 0))"
    using c11 [THEN spec, of 1, THEN mp, OF l1] by simp
  show ?thesis by (intro conjI) (rule r 1 2 ne 3 l0 l1 4 5)+
qed


end
